theory Spec2Isabelle
  imports Complex_Main "HOL-Library.Sublist"
begin

section \<open>Strings as Python sees them\<close>

text \<open>
  Queries, product fields and promo codes are Python \<open>str\<close> values. They are modelled as
  \<open>string\<close> (a list of 8-bit characters) and read as ASCII text: the character classes below
  are Python's classes restricted to code points below 128. Prices are Python floats; they
  are modelled as exact rationals, so rounding of the binary representation is outside the
  model while every comparison and every arithmetic expression has the shape of the source.
\<close>

definition is_space :: "char \<Rightarrow> bool" where
  \<comment> \<open>\<open>str.isspace\<close>, \<open>str.split()\<close>, \<open>str.strip()\<close> and the regex class \<open>\s\<close> on ASCII\<close>
  "is_space c = (c \<in> set [CHR 0x09, CHR 0x0A, CHR 0x0B, CHR 0x0C, CHR 0x0D,
                           CHR 0x1C, CHR 0x1D, CHR 0x1E, CHR 0x1F, CHR 0x20])"

definition is_digit :: "char \<Rightarrow> bool" where
  "is_digit c = (48 \<le> (of_char c :: nat) \<and> (of_char c :: nat) \<le> 57)"

definition is_upper :: "char \<Rightarrow> bool" where
  "is_upper c = (65 \<le> (of_char c :: nat) \<and> (of_char c :: nat) \<le> 90)"

definition is_lower :: "char \<Rightarrow> bool" where
  "is_lower c = (97 \<le> (of_char c :: nat) \<and> (of_char c :: nat) \<le> 122)"

definition is_word :: "char \<Rightarrow> bool" where
  \<comment> \<open>the regex class \<open>\w\<close>: letters, digits and the underscore\<close>
  "is_word c = (is_digit c \<or> is_upper c \<or> is_lower c \<or> c = CHR ''_'')"

definition lower_char :: "char \<Rightarrow> char" where
  "lower_char c = (if is_upper c then char_of ((of_char c :: nat) + 32) else c)"

definition upper_char :: "char \<Rightarrow> char" where
  "upper_char c = (if is_lower c then char_of ((of_char c :: nat) - 32) else c)"

definition lower :: "string \<Rightarrow> string" where
  "lower s = map lower_char s"

definition upper :: "string \<Rightarrow> string" where
  "upper s = map upper_char s"

text \<open>\<open>str.split()\<close> without arguments: the maximal runs of non-whitespace characters.\<close>

fun split_acc :: "string \<Rightarrow> string \<Rightarrow> string list" where
  "split_acc acc [] = (if acc = [] then [] else [rev acc])"
| "split_acc acc (c # cs) =
     (if is_space c then (if acc = [] then split_acc [] cs else rev acc # split_acc [] cs)
      else split_acc (c # acc) cs)"

definition split_ws :: "string \<Rightarrow> string list" where
  "split_ws s = split_acc [] s"

text \<open>\<open>str.strip()\<close>: whitespace removed at both ends.\<close>

definition strip :: "string \<Rightarrow> string" where
  "strip s = rev (dropWhile is_space (rev (dropWhile is_space s)))"

text \<open>Truthiness of an optional string and of an optional number, as \<open>if x:\<close> tests it.\<close>

fun truthy_str :: "string option \<Rightarrow> bool" where
  "truthy_str None = False"
| "truthy_str (Some s) = (s \<noteq> [])"

fun truthy_num :: "rat option \<Rightarrow> bool" where
  "truthy_num None = False"
| "truthy_num (Some x) = (x \<noteq> 0)"

section \<open>tools.py: the catalog\<close>

record Product =
  p_id :: string
  p_name :: string
  p_price :: rat
  p_color :: string
  p_size :: string
  p_store :: string
  p_stock :: int
  p_description :: string

record ReturnPolicy =
  rp_store :: string
  rp_days_allowed :: nat
  rp_free_returns :: bool
  rp_conditions :: string

definition mk_product ::
  "string \<Rightarrow> string \<Rightarrow> rat \<Rightarrow> string \<Rightarrow> string \<Rightarrow> string \<Rightarrow> int \<Rightarrow> string \<Rightarrow> Product" where
  "mk_product i n pr c sz st k d =
     \<lparr>p_id = i, p_name = n, p_price = pr, p_color = c, p_size = sz, p_store = st,
      p_stock = k, p_description = d\<rparr>"

definition products :: "Product list" where
  "products =
    [mk_product ''1'' ''Floral Summer Skirt'' (3599 / 100) ''Floral'' ''S'' ''StoreA'' 10
       ''Beautiful floral pattern'',
     mk_product ''2'' ''White Athletic Sneakers'' (6599 / 100) ''White'' ''8'' ''StoreB'' 5
       ''Classic white sneakers'',
     mk_product ''3'' ''Casual Denim Jacket'' 80 ''Blue'' ''M'' ''StoreA'' 8
       ''Casual denim jacket'',
     mk_product ''4'' ''Cocktail Dress'' (8999 / 100) ''Black'' ''S'' ''StoreB'' 15
       ''Elegant cocktail dress'',
     mk_product ''5'' ''Casual Denim Jacket'' (7599 / 100) ''Blue'' ''M'' ''StoreB'' 6
       ''Casual denim jacket'',
     mk_product ''6'' ''Casual Denim Jacket'' (8299 / 100) ''Blue'' ''M'' ''StoreC'' 4
       ''Casual denim jacket'']"

definition stores :: "string \<rightharpoonup> ReturnPolicy" where
  "stores = map_of
    [(''StoreA'', \<lparr>rp_store = ''StoreA'', rp_days_allowed = 30, rp_free_returns = True,
        rp_conditions = ''Items must be unworn with tags''\<rparr>),
     (''StoreB'', \<lparr>rp_store = ''StoreB'', rp_days_allowed = 14, rp_free_returns = False,
        rp_conditions = ''Return shipping fee applies''\<rparr>),
     (''StoreC'', \<lparr>rp_store = ''StoreC'', rp_days_allowed = 21, rp_free_returns = True,
        rp_conditions = ''Free returns within 21 days''\<rparr>)]"

definition promo_codes :: "string \<rightharpoonup> rat" where
  "promo_codes = map_of [(''SAVE10'', 10 / 100), (''SUMMER20'', 20 / 100)]"

subsection \<open>search_products\<close>

definition stopwords :: "string list" where
  "stopwords = [''a'', ''the'', ''in'', ''with'', ''and'', ''or'', ''for'', ''to'', ''under'']"

definition keywords_of :: "string \<Rightarrow> string list" where
  "keywords_of query = map lower (filter (\<lambda>word. lower word \<notin> set stopwords) (split_ws query))"

definition product_text :: "Product \<Rightarrow> string" where
  "product_text p = lower (p_name p @ '' '' @ p_description p @ '' '' @ p_color p)"

definition keyword_matches :: "string list \<Rightarrow> Product \<Rightarrow> string list" where
  "keyword_matches keywords p = filter (\<lambda>keyword. sublist keyword (product_text p)) keywords"

text \<open>
  The loop over the catalog. Each \<open>continue\<close> of the source is a branch that drops the
  product; the guards \<open>if max_price:\<close>, \<open>if color:\<close> and \<open>if size:\<close> test truthiness.
\<close>

fun price_exceeds :: "rat option \<Rightarrow> Product \<Rightarrow> bool" where
  \<comment> \<open>\<open>if max_price: if product.price > max_price: continue\<close>\<close>
  "price_exceeds None p = False"
| "price_exceeds (Some m) p = (truthy_num (Some m) \<and> p_price p > m)"

fun color_mismatch :: "string option \<Rightarrow> Product \<Rightarrow> bool" where
  \<comment> \<open>\<open>if color: if color.lower() != product.color.lower(): continue\<close>\<close>
  "color_mismatch None p = False"
| "color_mismatch (Some c) p = (truthy_str (Some c) \<and> lower c \<noteq> lower (p_color p))"

fun size_mismatch :: "string option \<Rightarrow> Product \<Rightarrow> bool" where
  \<comment> \<open>\<open>if size: if size.lower() != product.size.lower(): continue\<close>\<close>
  "size_mismatch None p = False"
| "size_mismatch (Some z) p = (truthy_str (Some z) \<and> lower z \<noteq> lower (p_size p))"

fun search_loop ::
  "Product list \<Rightarrow> string list \<Rightarrow> rat option \<Rightarrow> string option \<Rightarrow> string option \<Rightarrow> Product list"
  where
  "search_loop [] keywords max_price color sz = []"
| "search_loop (p # ps) keywords max_price color sz =
     (let rest = search_loop ps keywords max_price color sz in
      if keyword_matches keywords p = [] then rest
      else if price_exceeds max_price p then rest
      else if color_mismatch color p then rest
      else if size_mismatch sz p then rest
      else p # rest)"

definition search_products ::
  "string \<Rightarrow> rat option \<Rightarrow> string option \<Rightarrow> string option \<Rightarrow> Product list" where
  "search_products query max_price color sz =
     search_loop products (keywords_of query) max_price color sz"

subsection \<open>apply_discount, compare_prices, get_return_policy\<close>

definition apply_discount :: "rat \<Rightarrow> string \<Rightarrow> rat option" where
  "apply_discount price code =
     (case promo_codes code of
        Some discount \<Rightarrow> Some (price * (1 - discount))
      | None \<Rightarrow> None)"

text \<open>
  A Python dict keeps insertion order; assigning to a key that is present replaces the
  value in place.
\<close>

fun dict_set :: "'k \<Rightarrow> 'v \<Rightarrow> ('k \<times> 'v) list \<Rightarrow> ('k \<times> 'v) list" where
  "dict_set k v [] = [(k, v)]"
| "dict_set k v ((k', v') # kvs) =
     (if k = k' then (k, v) # kvs else (k', v') # dict_set k v kvs)"

fun compare_loop :: "Product list \<Rightarrow> string \<Rightarrow> (string \<times> rat) list \<Rightarrow> (string \<times> rat) list"
  where
  "compare_loop [] product_name results = results"
| "compare_loop (p # ps) product_name results =
     (if sublist (lower product_name) (lower (p_name p))
      then compare_loop ps product_name (dict_set (p_store p) (p_price p) results)
      else compare_loop ps product_name results)"

definition compare_prices :: "string \<Rightarrow> (string \<times> rat) list" where
  "compare_prices product_name = compare_loop products product_name []"

definition get_return_policy :: "string \<Rightarrow> ReturnPolicy option" where
  "get_return_policy store = stores store"

section \<open>The regular expressions of the \<open>re\<close> module\<close>

text \<open>
  The patterns of agent.py use literals, character classes, greedy and lazy repetition of
  one character class, optional parts, alternation, one capturing group, \<open>$\<close> and \<open>\b\<close>.
  \<open>rmatch r p s\<close> lists, in the order in which the backtracking matcher of \<open>re\<close> tries
  them, every way in which \<open>r\<close> matches a prefix of \<open>s\<close>, where \<open>p\<close> is the character
  before \<open>s\<close> in the searched string: each entry is the number of characters consumed and
  the text of group 1, if the group took part. The match that \<open>re\<close> reports is the head.
  \<open>LitI\<close> is a literal under \<open>re.IGNORECASE\<close>.
\<close>

datatype atom = Ch char | Dot | Digit | Word | Space | WordSpace | OneOf string

fun amatch :: "atom \<Rightarrow> char \<Rightarrow> bool" where
  "amatch (Ch a) c = (c = a)"
| "amatch Dot c = (c \<noteq> CHR 0x0A)"
| "amatch Digit c = is_digit c"
| "amatch Word c = is_word c"
| "amatch Space c = is_space c"
| "amatch WordSpace c = (is_word c \<or> is_space c)"
| "amatch (OneOf cs) c = (c \<in> set cs)"

datatype rx =
    Lit string
  | LitI string
  | Atom atom
  | Seq rx rx
  | Alt rx rx
  | Opt rx
  | Star atom
  | Plus atom
  | LazyStar atom
  | LazyPlus atom
  | Grp rx
  | Eol
  | WordB

definition prev_after :: "char option \<Rightarrow> string \<Rightarrow> nat \<Rightarrow> char option" where
  "prev_after p s n = (if n = 0 then p else Some (s ! (n - 1)))"

definition run :: "atom \<Rightarrow> string \<Rightarrow> nat" where
  "run a s = length (takeWhile (amatch a) s)"

fun word_before :: "char option \<Rightarrow> bool" where
  "word_before None = False"
| "word_before (Some c) = is_word c"

fun word_next :: "string \<Rightarrow> bool" where
  "word_next [] = False"
| "word_next (c # cs) = is_word c"

fun cap_merge :: "string option \<Rightarrow> string option \<Rightarrow> string option" where
  "cap_merge c1 None = c1"
| "cap_merge c1 (Some g) = Some g"

fun rmatch :: "rx \<Rightarrow> char option \<Rightarrow> string \<Rightarrow> (nat \<times> string option) list" where
  "rmatch (Lit w) p s = (if prefix w s then [(length w, None)] else [])"
| "rmatch (LitI w) p s =
     (if length w \<le> length s \<and> lower (take (length w) s) = lower w
      then [(length w, None)] else [])"
| "rmatch (Atom a) p s =
     (case s of [] \<Rightarrow> [] | c # cs \<Rightarrow> if amatch a c then [(1, None)] else [])"
| "rmatch (Seq r1 r2) p s =
     concat (map (\<lambda>(n1, c1).
               map (\<lambda>(n2, c2). (n1 + n2, cap_merge c1 c2))
                   (rmatch r2 (prev_after p s n1) (drop n1 s)))
             (rmatch r1 p s))"
| "rmatch (Alt r1 r2) p s = rmatch r1 p s @ rmatch r2 p s"
| "rmatch (Opt r) p s = rmatch r p s @ [(0, None)]"
| "rmatch (Star a) p s = map (\<lambda>k. (k, None)) (rev [0..<Suc (run a s)])"
| "rmatch (Plus a) p s = map (\<lambda>k. (k, None)) (rev [1..<Suc (run a s)])"
| "rmatch (LazyStar a) p s = map (\<lambda>k. (k, None)) [0..<Suc (run a s)]"
| "rmatch (LazyPlus a) p s = map (\<lambda>k. (k, None)) [1..<Suc (run a s)]"
| "rmatch (Grp r) p s = map (\<lambda>(n, c). (n, Some (take n s))) (rmatch r p s)"
| "rmatch Eol p s = (if s = [] \<or> s = [CHR 0x0A] then [(0, None)] else [])"
| "rmatch WordB p s = (if word_before p \<noteq> word_next s then [(0, None)] else [])"

fun seqs :: "rx \<Rightarrow> rx list \<Rightarrow> rx" where
  "seqs r [] = r"
| "seqs r (r' # rs) = Seq r (seqs r' rs)"

fun alts :: "rx \<Rightarrow> rx list \<Rightarrow> rx" where
  "alts r [] = r"
| "alts r (r' # rs) = Alt r (alts r' rs)"

text \<open>
  A match object: where the match starts, how long it is, and group 1. Every pattern of
  agent.py whose group 1 is read has the group on every path, so \<open>group1\<close> of a match that
  \<open>search\<close> returns for them is never Python's \<open>None\<close>.
\<close>

datatype re_match = Match (m_start: nat) (m_len: nat) (m_cap: "string option")

definition group0 :: "string \<Rightarrow> re_match \<Rightarrow> string" where
  "group0 s m = take (m_len m) (drop (m_start m) s)"

fun group1 :: "re_match \<Rightarrow> string" where
  "group1 (Match i n None) = []"
| "group1 (Match i n (Some g)) = g"

text \<open>\<open>re.search\<close>: the leftmost start at which the pattern matches, scanning from index \<open>i\<close>.\<close>

fun search_from :: "rx \<Rightarrow> char option \<Rightarrow> string \<Rightarrow> nat \<Rightarrow> re_match option" where
  "search_from r p [] i =
     (case rmatch r p [] of [] \<Rightarrow> None | (n, c) # alternatives \<Rightarrow> Some (Match i n c))"
| "search_from r p (x # xs) i =
     (case rmatch r p (x # xs) of
        [] \<Rightarrow> search_from r (Some x) xs (Suc i)
      | (n, c) # alternatives \<Rightarrow> Some (Match i n c))"

definition search :: "rx \<Rightarrow> string \<Rightarrow> re_match option" where
  "search r s = search_from r None s 0"

text \<open>
  \<open>re.sub(pattern, '', s)\<close>: every leftmost non-overlapping match is deleted. The one
  pattern it is called with matches no empty string; an empty match is treated as no match.
\<close>

function re_delete :: "rx \<Rightarrow> char option \<Rightarrow> string \<Rightarrow> string" where
  "re_delete r p [] = []"
| "re_delete r p (x # xs) =
     (case rmatch r p (x # xs) of
        [] \<Rightarrow> x # re_delete r (Some x) xs
      | (0, c) # alternatives \<Rightarrow> x # re_delete r (Some x) xs
      | (Suc n, c) # alternatives \<Rightarrow>
          re_delete r (prev_after p (x # xs) (Suc n)) (drop n xs))"
  by pat_completeness auto
termination
  by (relation "measure (\<lambda>(r, p, s). length s)") auto

text \<open>\<open>str.find\<close> (\<open>-1\<close> when absent) and the slice \<open>s[:k]\<close>.\<close>

fun find_from :: "string \<Rightarrow> string \<Rightarrow> int \<Rightarrow> int" where
  "find_from [] sub i = (if sub = [] then i else - 1)"
| "find_from (x # xs) sub i = (if prefix sub (x # xs) then i else find_from xs sub (i + 1))"

definition find :: "string \<Rightarrow> string \<Rightarrow> int" where
  "find s sub = find_from s sub 0"

definition slice_to :: "string \<Rightarrow> int \<Rightarrow> string" where
  "slice_to s k = (if k < 0 then take (nat (int (length s) + k)) s else take (nat k) s)"

text \<open>The loop \<open>for pattern in patterns: match = re.search(pattern, s); if match: ... break\<close>.\<close>

fun first_match :: "rx list \<Rightarrow> string \<Rightarrow> re_match option" where
  "first_match [] s = None"
| "first_match (r # rs) s =
     (case search r s of Some m \<Rightarrow> Some m | None \<Rightarrow> first_match rs s)"

section \<open>Dates\<close>

text \<open>
  A \<open>datetime\<close> is its proleptic Gregorian ordinal (\<open>toordinal()\<close>: day 1 is 0001-01-01)
  and the microseconds since midnight; \<open>weekday()\<close> and the addition of a
  \<open>timedelta(days=k)\<close> are arithmetic on the ordinal, as in the \<open>datetime\<close> module. The
  clock \<open>datetime.now()\<close> is a parameter, read once per query; the upper end of the range
  of \<open>datetime\<close> (the year 9999) is not modelled.
\<close>

record datetime =
  ordinal :: int
  micros :: int

definition weekday :: "datetime \<Rightarrow> int" where
  "weekday d = (ordinal d + 6) mod 7"

definition plus_days :: "datetime \<Rightarrow> int \<Rightarrow> datetime" where
  "plus_days d k = d\<lparr>ordinal := ordinal d + k\<rparr>"

definition dt_le :: "datetime \<Rightarrow> datetime \<Rightarrow> bool" where
  "dt_le a b = (ordinal a < ordinal b \<or> (ordinal a = ordinal b \<and> micros a \<le> micros b))"

definition is_leap :: "int \<Rightarrow> bool" where
  "is_leap y = (y mod 4 = 0 \<and> (y mod 100 \<noteq> 0 \<or> y mod 400 = 0))"

definition days_in_month :: "int \<Rightarrow> nat \<Rightarrow> int" where
  "days_in_month y m =
     (if m = 2 then (if is_leap y then 29 else 28)
      else if m \<in> {4, 6, 9, 11} then 30 else 31)"

definition days_before_year :: "int \<Rightarrow> int" where
  "days_before_year y = (y - 1) * 365 + (y - 1) div 4 - (y - 1) div 100 + (y - 1) div 400"

definition days_before_month :: "int \<Rightarrow> nat \<Rightarrow> int" where
  "days_before_month y m = (\<Sum>k \<leftarrow> [1..<m]. days_in_month y k)"

definition ymd2ord :: "int \<Rightarrow> nat \<Rightarrow> int \<Rightarrow> int" where
  "ymd2ord y m d = days_before_year y + days_before_month y m + d"

definition datetime_ymd :: "int \<Rightarrow> nat \<Rightarrow> int \<Rightarrow> datetime" where
  \<comment> \<open>\<open>datetime(y, m, d)\<close>, at midnight\<close>
  "datetime_ymd y m d = \<lparr>ordinal = ymd2ord y m d, micros = 0\<rparr>"

definition in_year :: "int \<Rightarrow> datetime \<Rightarrow> bool" where
  \<comment> \<open>\<open>d.year == y\<close>\<close>
  "in_year y d = (ymd2ord y 1 1 \<le> ordinal d \<and> ordinal d < ymd2ord (y + 1) 1 1)"

text \<open>
  \<open>datetime.strptime(text, "%B %d")\<close> in the C locale: a full month name in any case,
  whitespace, and a day of one or two digits (\<open>1\<close> to \<open>31\<close>, a leading zero allowed) that
  exists in that month, with nothing left over. The format has no year, and \<open>strptime\<close>
  then takes the year 1900. \<open>None\<close> stands for the \<open>ValueError\<close> that the caller catches.
\<close>

definition month_names :: "string list" where
  "month_names = [''january'', ''february'', ''march'', ''april'', ''may'', ''june'', ''july'',
                  ''august'', ''september'', ''october'', ''november'', ''december'']"

fun index_of :: "'a \<Rightarrow> 'a list \<Rightarrow> nat option" where
  "index_of x [] = None"
| "index_of x (y # ys) =
     (if x = y then Some 0 else (case index_of x ys of None \<Rightarrow> None | Some i \<Rightarrow> Some (Suc i)))"

definition digit_val :: "char \<Rightarrow> nat" where
  "digit_val c = of_char c - 48"

definition nat_of_digits :: "string \<Rightarrow> nat" where
  "nat_of_digits ds = foldl (\<lambda>a c. 10 * a + digit_val c) 0 ds"

definition parse_day :: "string \<Rightarrow> nat option" where
  \<comment> \<open>the directive \<open>%d\<close>, which has to use up the text\<close>
  "parse_day ds =
     (if (length ds = 1 \<or> length ds = 2) \<and> list_all is_digit ds
         \<and> 1 \<le> nat_of_digits ds \<and> nat_of_digits ds \<le> 31
      then Some (nat_of_digits ds) else None)"

definition parse_month_day :: "string \<Rightarrow> (nat \<times> nat) option" where
  "parse_month_day text =
     (let name = takeWhile (\<lambda>c. \<not> is_space c) text;
          rest = dropWhile (\<lambda>c. \<not> is_space c) text;
          gap = takeWhile is_space rest;
          ds = dropWhile is_space rest
      in case index_of (lower name) month_names of
           None \<Rightarrow> None
         | Some i \<Rightarrow>
             (if gap = [] then None
              else case parse_day ds of
                     None \<Rightarrow> None
                   | Some d \<Rightarrow>
                       if int d \<le> days_in_month 1900 (Suc i) then Some (Suc i, d) else None))"

definition strptime_B_d :: "string \<Rightarrow> datetime option" where
  "strptime_B_d text =
     (case parse_month_day text of
        None \<Rightarrow> None
      | Some (m, d) \<Rightarrow> Some (datetime_ymd 1900 m (int d)))"

text \<open>
  \<open>float(text)\<close> on the texts that the price patterns capture (digits, an optional point,
  digits): the decimal value. Any other text is reported as \<open>ValueError\<close> (\<open>None\<close>).
\<close>

definition py_float :: "string \<Rightarrow> rat option" where
  "py_float text =
     (let ip = takeWhile is_digit text; rest = dropWhile is_digit text
      in if ip = [] then None
         else case rest of
                [] \<Rightarrow> Some (of_nat (nat_of_digits ip))
              | c # fp \<Rightarrow>
                  if c = CHR ''.'' \<and> list_all is_digit fp
                  then Some (of_nat (nat_of_digits ip)
                             + of_nat (nat_of_digits fp) / 10 ^ length fp)
                  else None)"

section \<open>agent.py: the pattern library\<close>

definition price_num :: rx where
  \<comment> \<open>\<open>(\d+\.?\d*)\<close>\<close>
  "price_num = Grp (seqs (Plus Digit) [Opt (Lit ''.''), Star Digit])"

definition price_patterns :: "rx list" where
  "price_patterns =
    [seqs (Lit ''under'') [Star Space, Lit ''$'', price_num],
     seqs (Lit ''less than'') [Star Space, Lit ''$'', price_num],
     seqs (Lit ''cheaper than'') [Star Space, Lit ''$'', price_num],
     seqs (Lit ''$'') [price_num, Star Space, Lit ''or less''],
     seqs (Lit ''$'') [price_num, Star Space]]"

definition weekday_names :: "string list" where
  "weekday_names = [''monday'', ''tuesday'', ''wednesday'', ''thursday'', ''friday'',
                    ''saturday'', ''sunday'']"

definition weekday_group :: rx where
  \<comment> \<open>\<open>(monday|tuesday|wednesday|thursday|friday|saturday|sunday)\<close>\<close>
  "weekday_group = Grp (alts (Lit ''monday'') (map Lit (tl weekday_names)))"

definition month_day_group :: rx where
  \<comment> \<open>\<open>(\w+\s*\d+)\<close>\<close>
  "month_day_group = Grp (seqs (Plus Word) [Star Space, Plus Digit])"

definition date_patterns :: "rx list" where
  "date_patterns =
    [seqs (Lit ''by'') [Star Space, weekday_group],
     seqs (Lit ''before'') [Star Space, weekday_group],
     seqs (Lit ''deliver'') [Opt (Alt (Lit ''ed'') (Lit ''y'')), Star Space, Lit ''by'',
                             Star Space, month_day_group],
     seqs (Lit ''arrive'') [Star Space, Lit ''by'', Star Space, month_day_group]]"

definition comparison_patterns :: "rx list" where
  "comparison_patterns =
    [Seq (Lit ''better deal'') (Opt (Lit ''s'')),
     Lit ''compare'',
     Lit ''cheaper'',
     Lit ''best price'',
     Lit ''lowest price'',
     Lit ''price difference'',
     Lit ''price comparison'']"

definition return_patterns :: "rx list" where
  "return_patterns =
    [Lit ''return policy'',
     Lit ''can i return'',
     Seq (Lit ''return'') (Opt (Lit ''s'')),
     Lit ''refund'',
     Lit ''exchange'']"

section \<open>agent.py: the field extractors\<close>

subsection \<open>\_extract\_product\_name\<close>

definition quote_chars :: string where
  "quote_chars = [CHR 0x27, CHR 0x22]"

definition quote_pattern :: rx where
  \<comment> \<open>a quote, \<open>(.*?)\<close>, a quote\<close>
  "quote_pattern = seqs (Atom (OneOf quote_chars)) [Grp (LazyStar Dot), Atom (OneOf quote_chars)]"

definition quote_tier :: "string \<Rightarrow> string option" where
  "quote_tier query =
     (case search quote_pattern query of
        None \<Rightarrow> None
      | Some quote_match \<Rightarrow>
          if \<not> sublist ''code'' (lower (slice_to query (find query (group0 query quote_match))))
          then Some (group1 quote_match) else None)"

definition boundary :: rx where
  \<comment> \<open>\<open>(?:under|\$|in size|with size|color|from|at|\?|$)\<close>\<close>
  "boundary = alts (Lit ''under'') [Lit ''$'', Lit ''in size'', Lit ''with size'', Lit ''color'',
                                     Lit ''from'', Lit ''at'', Lit ''?'', Eol]"

definition article :: rx where
  \<comment> \<open>\<open>(?:a|an)?\<close>\<close>
  "article = Opt (Alt (Lit ''a'') (Lit ''an''))"

definition product_indicators :: "rx list" where
  "product_indicators =
    [seqs (alts (Lit ''looking for'') [Lit ''find'', Lit ''need'', Lit ''want''])
          [Plus Space, article, Star Space, Grp (LazyPlus WordSpace), boundary],
     seqs (alts (Lit ''find'') [Lit ''get'', Lit ''show''])
          [Plus Space, Opt (Seq (Lit ''me'') (Plus Space)), article, Star Space,
           Grp (LazyPlus WordSpace), boundary],
     seqs article
          [Star Space,
           Grp (Seq (Opt (Seq (Plus Word) (Plus Space)))
                    (alts (Lit ''skirt'') [Lit ''dress'', Lit ''jacket'', Lit ''shoes'',
                                           Lit ''sneakers'', Lit ''top''])),
           Plus Space, boundary]]"

definition filler_pattern :: rx where
  \<comment> \<open>\<open>\b(a|an|the|some)\b\<close>\<close>
  "filler_pattern =
     seqs WordB [Grp (alts (Lit ''a'') [Lit ''an'', Lit ''the'', Lit ''some'']), WordB]"

fun indicator_loop :: "rx list \<Rightarrow> string \<Rightarrow> string option" where
  "indicator_loop [] query = None"
| "indicator_loop (pattern # patterns) query =
     (case search pattern (lower query) of
        None \<Rightarrow> indicator_loop patterns query
      | Some m \<Rightarrow>
          (let product_name = strip (re_delete filler_pattern None (strip (group1 m)))
           in if product_name \<noteq> [] then Some product_name
              else indicator_loop patterns query))"

definition product_types :: "string list" where
  "product_types = [''skirt'', ''dress'', ''jacket'', ''sneakers'', ''shoes'']"

fun type_loop :: "string list \<Rightarrow> string \<Rightarrow> string option" where
  "type_loop [] query = None"
| "type_loop (product_type # types) query =
     (if sublist product_type (lower query)
      then (case search (seqs (Grp (Plus Word)) [Plus Space, Lit product_type]) (lower query) of
              Some adj_match \<Rightarrow> Some (group1 adj_match @ '' '' @ product_type)
            | None \<Rightarrow> Some product_type)
      else type_loop types query)"

definition extract_product_name :: "string \<Rightarrow> string option" where
  "extract_product_name query =
     (case quote_tier query of
        Some name \<Rightarrow> Some name
      | None \<Rightarrow>
          (case indicator_loop product_indicators query of
             Some name \<Rightarrow> Some name
           | None \<Rightarrow> type_loop product_types query))"

subsection \<open>\_parse\_delivery\_date\<close>

definition days_map :: "string \<rightharpoonup> int" where
  "days_map = map_of [(''monday'', 0), (''tuesday'', 1), (''wednesday'', 2), (''thursday'', 3),
                      (''friday'', 4), (''saturday'', 5), (''sunday'', 6)]"

definition days_until :: "int \<Rightarrow> int \<Rightarrow> int" where
  \<comment> \<open>\<open>days_until = (target_day_num - current_day) % 7; if days_until == 0: days_until = 7\<close>\<close>
  "days_until target_day_num current_day =
     (if (target_day_num - current_day) mod 7 = 0 then 7
      else (target_day_num - current_day) mod 7)"

fun date_loop :: "rx list \<Rightarrow> datetime \<Rightarrow> string \<Rightarrow> datetime option" where
  "date_loop [] today query = None"
| "date_loop (pattern # patterns) today query =
     (case search pattern (lower query) of
        None \<Rightarrow> date_loop patterns today query
      | Some m \<Rightarrow>
          (case days_map (group1 m) of \<comment> \<open>the keys are the weekday names tested\<close>
             Some target_day_num \<Rightarrow>
               Some (plus_days today (days_until target_day_num (weekday today)))
           | None \<Rightarrow>
               (case strptime_B_d (group1 m) of
                  Some d \<Rightarrow> Some d
                | None \<Rightarrow> date_loop patterns today query)))"

definition parse_delivery_date :: "datetime \<Rightarrow> string \<Rightarrow> datetime option" where
  "parse_delivery_date today query = date_loop date_patterns today query"

subsection \<open>parse\_query\<close>

datatype error = TypeError | ValueError

record info =
  max_price :: "rat option"
  size_info :: "string option"
  color :: "string option"
  store :: "string option"
  delivery_target :: "datetime option"
  discount_code :: "string option"
  product_name :: "string option"
  query_type :: string

definition extract_price :: "string \<Rightarrow> error + rat option" where
  \<comment> \<open>\<open>float\<close> raises \<open>ValueError\<close> on a text that is no number\<close>
  "extract_price query =
     (case first_match price_patterns query of
        None \<Rightarrow> Inr None
      | Some m \<Rightarrow> (case py_float (group1 m) of None \<Rightarrow> Inl ValueError | Some x \<Rightarrow> Inr (Some x)))"

definition size_patterns :: "rx list" where
  "size_patterns =
    [seqs (Lit ''size'') [Plus Space, Grp (Plus Word)],
     seqs (Lit ''in'') [Plus Space, Grp (Plus Word), Plus Space, Lit ''size''],
     seqs (Lit ''size:'') [Star Space, Grp (Plus Word)]]"

definition extract_size :: "string \<Rightarrow> string option" where
  "extract_size query =
     (case first_match size_patterns (lower query) of
        None \<Rightarrow> None
      | Some m \<Rightarrow> Some (upper (group1 m)))"

definition colors :: "string list" where
  "colors = [''white'', ''black'', ''blue'', ''red'', ''green'', ''yellow'', ''floral'']"

fun color_loop :: "string list \<Rightarrow> string \<Rightarrow> string option" where
  "color_loop [] query = None"
| "color_loop (c # cs) query =
     (if sublist c (lower query)
      then (if search (seqs WordB [Lit c, WordB]) (lower query) \<noteq> None then Some c
            else color_loop cs query)
      else color_loop cs query)"

definition extract_color :: "string \<Rightarrow> string option" where
  "extract_color query = color_loop colors query"

definition any_match :: "rx list \<Rightarrow> string \<Rightarrow> bool" where
  \<comment> \<open>\<open>any(re.search(pattern, s) for pattern in patterns)\<close>\<close>
  "any_match patterns s = list_ex (\<lambda>pattern. search pattern s \<noteq> None) patterns"

definition classify :: "string \<Rightarrow> string" where
  "classify query =
     (if any_match comparison_patterns (lower query) then ''comparison''
      else if any_match return_patterns (lower query) then ''return''
      else ''search'')"

definition store_pattern :: rx where
  \<comment> \<open>\<open>(?:at|from|in|store)\s+(Store[ABC])\<close>\<close>
  "store_pattern =
     seqs (alts (Lit ''at'') [Lit ''from'', Lit ''in'', Lit ''store''])
          [Plus Space, Grp (Seq (Lit ''Store'') (Atom (OneOf ''ABC'')))]"

definition extract_store :: "string \<Rightarrow> string option" where
  "extract_store query =
     (case search store_pattern query of None \<Rightarrow> None | Some m \<Rightarrow> Some (group1 m))"

definition discount_patterns :: "rx list" where
  \<comment> \<open>searched with \<open>re.IGNORECASE\<close>\<close>
  "discount_patterns =
    [seqs (LitI ''discount code '') [Atom (OneOf quote_chars), Grp (Plus Word),
                                     Atom (OneOf quote_chars)],
     seqs (LitI ''code '') [Atom (OneOf quote_chars), Grp (Plus Word), Atom (OneOf quote_chars)],
     seqs (LitI ''coupon '') [Atom (OneOf quote_chars), Grp (Plus Word),
                              Atom (OneOf quote_chars)]]"

definition extract_discount_code :: "string \<Rightarrow> string option" where
  "extract_discount_code query =
     (case first_match discount_patterns query of None \<Rightarrow> None | Some m \<Rightarrow> Some (group1 m))"

definition parse_query :: "datetime \<Rightarrow> string \<Rightarrow> error + info" where
  "parse_query today query =
     (case extract_price query of
        Inl e \<Rightarrow> Inl e
      | Inr price \<Rightarrow>
          Inr \<lparr>max_price = price,
               size_info = extract_size query,
               color = extract_color query,
               store = extract_store query,
               delivery_target = parse_delivery_date today query,
               discount_code = extract_discount_code query,
               product_name = extract_product_name query,
               query_type = classify query\<rparr>)"

section \<open>agent.py: dispatch and the three handlers\<close>

text \<open>
  The handlers build their answer with f-strings. A response is modelled by the template
  that the source fills and the values put into it; the text of the number and date
  formatting is not modelled. The calls that only print (\<open>debug_log\<close>, \<open>_reason\<close>, \<open>_act\<close>,
  \<open>_use_tool\<close>) have no effect on the answer and are left out. An exception that leaves
  \<open>handle_query\<close> is a value of the type \<open>error\<close>.
\<close>

datatype sentence =
    Found_product string string rat string
  | In_stock int
  | Can_deliver datetime nat rat
  | Cannot_guarantee datetime
  | With_discount string rat
  | Code_not_valid string

datatype response =
    Return_policy string nat bool string
  | No_return_policy string
  | No_product_to_compare
  | Price_list string "(string \<times> rat) list"
  | No_comparisons string
  | No_products
  | Product_found "sentence list"

record ShippingDetails =
  available :: bool
  cost :: rat
  estimated_days :: nat
  delivery_date :: datetime

text \<open>The clock and the draw \<open>random.randint(5, 7)\<close> of one query.\<close>

record env =
  now :: datetime
  randint_5_7 :: nat

definition get_shipping_estimate :: "env \<Rightarrow> Product \<Rightarrow> datetime option \<Rightarrow> ShippingDetails" where
  "get_shipping_estimate e product target_date =
     (let days = randint_5_7 e; delivery = plus_days (now e) (int days)
      in \<lparr>available = (case target_date of Some t \<Rightarrow> dt_le delivery t | None \<Rightarrow> True),
          cost = 599 / 100,
          estimated_days = days,
          delivery_date = delivery\<rparr>)"

definition handle_return_query :: "info \<Rightarrow> response" where
  \<comment> \<open>without a store the lookup \<open>stores.get(None)\<close> finds nothing\<close>
  "handle_return_query i =
     (case store i of
        None \<Rightarrow> No_return_policy ''None''
      | Some st \<Rightarrow>
          (case get_return_policy st of
             Some policy \<Rightarrow>
               Return_policy st (rp_days_allowed policy) (rp_free_returns policy)
                 (rp_conditions policy)
           | None \<Rightarrow> No_return_policy st))"

text \<open>
  The loop of the comparison handler evaluates \<open>price <= info["max_price"]\<close> for every store;
  with \<open>max_price\<close> being \<open>None\<close> that comparison raises \<open>TypeError\<close>.
\<close>

fun comparison_lines :: "(string \<times> rat) list \<Rightarrow> rat option \<Rightarrow> error + (string \<times> rat) list" where
  "comparison_lines [] mp = Inr []"
| "comparison_lines ((st, price) # rest) mp =
     (case mp of
        None \<Rightarrow> Inl TypeError
      | Some m \<Rightarrow>
          (case comparison_lines rest mp of
             Inl e \<Rightarrow> Inl e
           | Inr ls \<Rightarrow> Inr (if price \<le> m then (st, price) # ls else ls)))"

definition handle_comparison_query :: "info \<Rightarrow> error + response" where
  "handle_comparison_query i =
     (if \<not> truthy_str (product_name i) then Inr No_product_to_compare
      else case product_name i of
        None \<Rightarrow> Inr No_product_to_compare
      | Some name \<Rightarrow>
          (let comparisons = compare_prices name
           in if comparisons \<noteq> []
              then (case comparison_lines (sort_key snd comparisons) (max_price i) of
                      Inl e \<Rightarrow> Inl e
                    | Inr ls \<Rightarrow> Inr (Price_list name ls))
              else Inr (No_comparisons name)))"

definition format_product_response :: "env \<Rightarrow> Product \<Rightarrow> info \<Rightarrow> response" where
  "format_product_response e product i =
     Product_found
      ([Found_product (p_name product) (p_size product) (p_price product) (p_store product),
        In_stock (p_stock product)]
       @ (case delivery_target i of
            None \<Rightarrow> []
          | Some target \<Rightarrow>
              (let shipping = get_shipping_estimate e product (Some target);
                   estimated_date = plus_days (now e) (int (estimated_days shipping))
               in if available shipping
                  then [Can_deliver estimated_date (estimated_days shipping) (cost shipping)]
                  else [Cannot_guarantee estimated_date]))
       @ (if truthy_str (discount_code i)
          then (case discount_code i of
                  None \<Rightarrow> []
                | Some code \<Rightarrow>
                    (case apply_discount (p_price product) code of
                       None \<Rightarrow> [Code_not_valid code]
                     | Some discounted_price \<Rightarrow>
                         if truthy_num (Some discounted_price)
                         then [With_discount code discounted_price]
                         else [Code_not_valid code]))
          else []))"

fun name_or_empty :: "string option \<Rightarrow> string" where
  \<comment> \<open>\<open>info["product_name"] if info["product_name"] else ""\<close>\<close>
  "name_or_empty None = []"
| "name_or_empty (Some name) = (if truthy_str (Some name) then name else [])"

definition handle_search_query :: "env \<Rightarrow> info \<Rightarrow> response" where
  "handle_search_query e i =
     (let results = search_products (name_or_empty (product_name i))
                                    (max_price i) (color i) (size_info i)
      in case results of
           [] \<Rightarrow> No_products
         | first_result # others \<Rightarrow> format_product_response e first_result i)"

definition handle_query :: "env \<Rightarrow> string \<Rightarrow> error + response" where
  "handle_query e query =
     (case parse_query (now e) query of
        Inl err \<Rightarrow> Inl err
      | Inr i \<Rightarrow>
          if query_type i = ''return'' \<and> truthy_str (store i)
          then Inr (handle_return_query i)
          else if query_type i = ''comparison'' \<and> truthy_str (product_name i)
          then handle_comparison_query i
          else Inr (handle_search_query e i))"

section \<open>Notions used to state the properties\<close>

text \<open>The ways in which a pattern matches at index \<open>j\<close> of a string.\<close>

definition rmatch_at :: "rx \<Rightarrow> string \<Rightarrow> nat \<Rightarrow> (nat \<times> string option) list" where
  "rmatch_at r s j = rmatch r (prev_after None s j) (drop j s)"


text \<open>
  The month and the day that \<open>strptime\<close> reads from the text that an explicit-date
  pattern captures in the lower-cased query, if the pattern matches and the text parses.
\<close>

definition explicit_date :: "rx \<Rightarrow> string \<Rightarrow> (nat \<times> nat) option" where
  "explicit_date pattern query =
     (case search pattern (lower query) of
        None \<Rightarrow> None
      | Some m \<Rightarrow> parse_month_day (group1 m))"


section \<open>Facts about the matcher and \<open>re.search\<close>\<close>

lemma prev_after_Cons: "prev_after (Some x) xs j = prev_after p (x # xs) (Suc j)"
  by (cases j) (simp_all add: prev_after_def)

lemma search_from_None_iff:
  "search_from r p s i = None \<longleftrightarrow> (\<forall>j\<le>length s. rmatch r (prev_after p s j) (drop j s) = [])"
proof (induction s arbitrary: p i)
  case Nil
  then show ?case by (simp add: prev_after_def split: list.splits)
next
  case (Cons x xs)
  show ?case
  proof (cases "rmatch r p (x # xs)")
    case Nil
    have "(\<forall>j\<le>length (x # xs). rmatch r (prev_after p (x # xs) j) (drop j (x # xs)) = [])
          \<longleftrightarrow> (\<forall>j\<le>length xs. rmatch r (prev_after (Some x) xs j) (drop j xs) = [])"
      (is "?L \<longleftrightarrow> ?R")
    proof
      assume l: ?L
      show ?R
      proof (intro allI impI)
        fix j assume "j \<le> length xs"
        with l have "rmatch r (prev_after p (x # xs) (Suc j)) (drop (Suc j) (x # xs)) = []"
          by (metis Suc_le_mono length_Cons)
        then show "rmatch r (prev_after (Some x) xs j) (drop j xs) = []"
          by (simp add: prev_after_Cons [of x xs j p])
      qed
    next
      assume r: ?R
      show ?L
      proof (intro allI impI)
        fix j assume j: "j \<le> length (x # xs)"
        show "rmatch r (prev_after p (x # xs) j) (drop j (x # xs)) = []"
        proof (cases j)
          case 0
          with Nil show ?thesis by (simp add: prev_after_def)
        next
          case (Suc k)
          with j r have "rmatch r (prev_after (Some x) xs k) (drop k xs) = []" by simp
          with Suc show ?thesis by (simp add: prev_after_Cons [of x xs k p])
        qed
      qed
    qed
    with Nil Cons.IH [of "Some x" "Suc i"] show ?thesis by simp
  next
    case (Cons a list)
    then have "rmatch r (prev_after p (x # xs) 0) (drop 0 (x # xs)) \<noteq> []"
      by (simp add: prev_after_def)
    then have "\<not> (\<forall>j\<le>length (x # xs). rmatch r (prev_after p (x # xs) j) (drop j (x # xs)) = [])"
      by blast
    with Cons show ?thesis by (simp split: prod.splits)
  qed
qed

lemma search_from_SomeI:
  assumes "j \<le> length s"
    and "rmatch r (prev_after p s j) (drop j s) = (n, c) # rest"
    and "\<forall>k<j. rmatch r (prev_after p s k) (drop k s) = []"
  shows "search_from r p s i = Some (Match (i + j) n c)"
  using assms
proof (induction s arbitrary: p i j)
  case Nil
  then show ?case by (simp add: prev_after_def)
next
  case (Cons x xs)
  show ?case
  proof (cases j)
    case 0
    with Cons.prems show ?thesis by (simp add: prev_after_def)
  next
    case (Suc j')
    with Cons.prems have first: "rmatch r p (x # xs) = []"
      by (metis drop0 prev_after_def zero_less_Suc)
    from Suc Cons.prems have a: "j' \<le> length xs" by simp
    from Suc Cons.prems have b: "rmatch r (prev_after (Some x) xs j') (drop j' xs) = (n, c) # rest"
      by (simp add: prev_after_Cons [of x xs j' p])
    have c: "\<forall>k<j'. rmatch r (prev_after (Some x) xs k) (drop k xs) = []"
    proof (intro allI impI)
      fix k assume "k < j'"
      with Suc Cons.prems(3) have "rmatch r (prev_after p (x # xs) (Suc k)) (drop (Suc k) (x # xs)) = []"
        by (metis Suc_mono)
      then show "rmatch r (prev_after (Some x) xs k) (drop k xs) = []"
        by (simp add: prev_after_Cons [of x xs k p])
    qed
    from Cons.IH [OF a b c, of "Suc i"] first Suc show ?thesis by simp
  qed
qed

lemma search_from_SomeD:
  assumes "search_from r p s i = Some m"
  shows "\<exists>j n c rest. j \<le> length s \<and> m = Match (i + j) n c
           \<and> rmatch r (prev_after p s j) (drop j s) = (n, c) # rest
           \<and> (\<forall>k<j. rmatch r (prev_after p s k) (drop k s) = [])"
proof -
  let ?P = "\<lambda>j. j \<le> length s \<and> rmatch r (prev_after p s j) (drop j s) \<noteq> []"
  from assms have "\<not> (\<forall>j\<le>length s. rmatch r (prev_after p s j) (drop j s) = [])"
    by (simp flip: search_from_None_iff [of r p s i])
  then obtain j0 where j0: "?P j0" by blast
  define j where "j = (LEAST j. ?P j)"
  have pj: "?P j" unfolding j_def using j0 by (rule LeastI)
  have least: "\<forall>k<j. rmatch r (prev_after p s k) (drop k s) = []"
  proof (intro allI impI)
    fix k assume k: "k < j"
    then have "\<not> ?P k" unfolding j_def by (rule not_less_Least)
    moreover from k pj have "k \<le> length s" by simp
    ultimately show "rmatch r (prev_after p s k) (drop k s) = []" by blast
  qed
  from pj obtain n c rest where hd: "rmatch r (prev_after p s j) (drop j s) = (n, c) # rest"
    by (cases "rmatch r (prev_after p s j) (drop j s)") auto
  from search_from_SomeI [OF _ hd least, of i] pj assms have "m = Match (i + j) n c" by simp
  with pj hd least show ?thesis by blast
qed

lemma search_None_iff: "search r s = None \<longleftrightarrow> (\<forall>j\<le>length s. rmatch_at r s j = [])"
  by (simp add: search_def rmatch_at_def search_from_None_iff)


lemma search_SomeD:
  "search r s = Some m \<Longrightarrow>
   \<exists>j n c rest. j \<le> length s \<and> m = Match j n c \<and> rmatch_at r s j = (n, c) # rest
     \<and> (\<forall>k<j. rmatch_at r s k = [])"
  using search_from_SomeD [of r None s 0 m] by (simp add: search_def rmatch_at_def)


lemma rmatch_Seq_beta:
  "rmatch (Seq r1 r2) p s =
     concat (map (\<lambda>x. map (\<lambda>y. (fst x + fst y, cap_merge (snd x) (snd y)))
                          (rmatch r2 (prev_after p s (fst x)) (drop (fst x) s)))
                 (rmatch r1 p s))"
  by (simp add: case_prod_unfold)

lemma set_rmatch_Seq:
  "(n, c) \<in> set (rmatch (Seq r1 r2) p s) \<longleftrightarrow>
     (\<exists>n1 c1 n2 c2. (n1, c1) \<in> set (rmatch r1 p s)
        \<and> (n2, c2) \<in> set (rmatch r2 (prev_after p s n1) (drop n1 s))
        \<and> n = n1 + n2 \<and> c = cap_merge c1 c2)"
  unfolding rmatch_Seq_beta by (force simp add: image_iff)



lemma run_le_length: "run a s \<le> length s"
  by (simp add: run_def length_takeWhile_le)


lemma take_takeWhile_all: "n \<le> length (takeWhile P s) \<Longrightarrow> list_all P (take n s)"
proof (induction s arbitrary: n)
  case Nil
  then show ?case by simp
next
  case (Cons x xs)
  then show ?case by (cases n) (auto split: if_splits)
qed

lemma take_run_all: "n \<le> run a s \<Longrightarrow> list_all (amatch a) (take n s)"
  unfolding run_def by (rule take_takeWhile_all)

lemma set_rmatch_Star: "(n, c) \<in> set (rmatch (Star a) p s) \<longleftrightarrow> n \<le> run a s \<and> c = None"
  by auto

lemma set_rmatch_Plus: "(n, c) \<in> set (rmatch (Plus a) p s) \<longleftrightarrow> 1 \<le> n \<and> n \<le> run a s \<and> c = None"
  by auto

lemma set_rmatch_LazyStar: "(n, c) \<in> set (rmatch (LazyStar a) p s) \<longleftrightarrow> n \<le> run a s \<and> c = None"
  by auto

lemma set_rmatch_LazyPlus:
  "(n, c) \<in> set (rmatch (LazyPlus a) p s) \<longleftrightarrow> 1 \<le> n \<and> n \<le> run a s \<and> c = None"
  by auto



lemma rmatch_le_length: "(n, c) \<in> set (rmatch r p s) \<Longrightarrow> n \<le> length s"
proof (induction r arbitrary: n c p s)
  case (Lit w)
  then show ?case by (auto simp add: prefix_length_le split: if_splits)
next
  case (Atom a)
  then show ?case by (auto split: list.splits if_splits)
next
  case (Seq r1 r2)
  from Seq.prems obtain n1 c1 n2 c2 where
    a: "(n1, c1) \<in> set (rmatch r1 p s)"
    and b: "(n2, c2) \<in> set (rmatch r2 (prev_after p s n1) (drop n1 s))"
    and n: "n = n1 + n2"
    unfolding set_rmatch_Seq by blast
  from Seq.IH(1) [OF a] Seq.IH(2) [OF b] n show ?case by simp
next
  case (Star a)
  then show ?case using run_le_length [of a s] by auto
next
  case (Plus a)
  then show ?case using run_le_length [of a s] by auto
next
  case (LazyStar a)
  then show ?case using run_le_length [of a s] by auto
next
  case (LazyPlus a)
  then show ?case using run_le_length [of a s] by auto
qed (auto split: if_splits)

section \<open>Properties of the catalog (tools.py)\<close>

lemma search_loop_filter:
  "search_loop ps ks mp c sz =
     filter (\<lambda>p. keyword_matches ks p \<noteq> [] \<and> \<not> price_exceeds mp p \<and> \<not> color_mismatch c p
                 \<and> \<not> size_mismatch sz p) ps"
  by (induction ps) (simp_all add: Let_def)

lemma search_loop_no_keywords: "search_loop ps [] mp c sz = []"
  by (induction ps) (simp_all add: keyword_matches_def)

lemma keywords_of_stopwords:
  "\<forall>word\<in>set (split_ws query). lower word \<in> set stopwords \<Longrightarrow> keywords_of query = []"
  by (simp add: keywords_of_def filter_empty_conv)

lemma split_ws_Nil: "split_ws [] = []"
  by (simp add: split_ws_def)

text \<open>
  C9. \<open>apply_discount\<close> returns an optional result: with the code \<open>SAVE10\<close> it is present and
  is the price times 0.90; it is absent exactly for the codes outside the table of the two
  promo codes (so for \<open>UNKNOWN\<close>); when present it is the price times one minus the fraction
  of the code.
\<close>

theorem apply_discount_table:
  "apply_discount P ''SAVE10'' = Some (P * (90 / 100))
   \<and> apply_discount P ''UNKNOWN'' = None
   \<and> (apply_discount P c = None) = (c \<notin> {''SAVE10'', ''SUMMER20''})
   \<and> apply_discount P c = map_option (\<lambda>fraction. P * (1 - fraction)) (promo_codes c)"
  by (auto simp add: apply_discount_def promo_codes_def)

text \<open>
  C10. A query all of whose whitespace-separated tokens are stopwords, the empty query among
  them, finds no product, whatever the price ceiling, the colour and the size are; so the
  search handler answers that it found nothing whenever no product name was extracted.
\<close>

theorem stopword_query_finds_nothing:
  assumes "\<forall>word\<in>set (split_ws query). lower word \<in> set stopwords"
  shows "search_products query mp c sz = []
         \<and> search_products [] mp c sz = []
         \<and> (product_name i = None \<longrightarrow> handle_search_query e i = No_products)"
proof -
  have a: "search_products query mp c sz = []"
    using assms by (simp add: search_products_def keywords_of_stopwords search_loop_no_keywords)
  have b: "search_products [] mp' c' sz' = []" for mp' c' sz'
    by (simp add: search_products_def keywords_of_def split_ws_Nil search_loop_no_keywords)
  have "handle_search_query e i = No_products" if "product_name i = None"
    using that by (simp add: handle_search_query_def b)
  with a b show ?thesis by blast
qed

theorem stopword_query_finds_nothing_witness:
  "search_products ''For  the'' (Some 100) (Some ''blue'') (Some ''M'') = []
   \<and> handle_search_query \<lparr>now = datetime_ymd 2026 11 3, randint_5_7 = 5\<rparr>
        \<lparr>max_price = Some 100, size_info = Some ''M'', color = Some ''blue'', store = None,
         delivery_target = None, discount_code = None, product_name = None,
         query_type = ''search''\<rparr> = No_products"
proof -
  have h: "\<forall>word\<in>set (split_ws ''For  the''). lower word \<in> set stopwords"
    by code_simp
  show ?thesis
    using stopword_query_finds_nothing [OF h, of "Some 100" "Some ''blue''" "Some ''M''"
      "\<lparr>max_price = Some 100, size_info = Some ''M'', color = Some ''blue'', store = None,
         delivery_target = None, discount_code = None, product_name = None,
         query_type = ''search''\<rparr>" "\<lparr>now = datetime_ymd 2026 11 3, randint_5_7 = 5\<rparr>"]
    by simp
qed

text \<open>
  The price ceiling of \<open>search_products\<close>: a ceiling that is given and is not zero bounds the
  price of every product returned, and the products come in catalog order.
\<close>

lemma search_products_ceiling:
  assumes "m \<noteq> 0" and "p \<in> set (search_products query (Some m) c sz)"
  shows "p_price p \<le> m"
  using assms by (auto simp add: search_products_def search_loop_filter)

lemma search_products_catalog_order: "subseq (search_products query mp c sz) products"
  by (simp add: search_products_def search_loop_filter)

text \<open>
  C4. The claim is that a given price ceiling bounds the price of every product returned.
  The guard \<open>if max_price:\<close> is false for the ceiling 0, so the ceiling 0 is not applied: the
  search for \<open>skirt\<close> under 0 returns the skirt that costs 35.99.
\<close>

theorem zero_ceiling_not_applied:
  "search_products ''skirt'' (Some 0) None None =
     [mk_product ''1'' ''Floral Summer Skirt'' (3599 / 100) ''Floral'' ''S'' ''StoreA'' 10
        ''Beautiful floral pattern'']
   \<and> \<not> p_price (hd (search_products ''skirt'' (Some 0) None None)) \<le> 0"
  by code_simp

section \<open>Properties of parse\_query: totality and the query type\<close>

lemma sublist_iff_prefix_drop: "sublist w s \<longleftrightarrow> (\<exists>j\<le>length s. prefix w (drop j s))"
proof
  assume "sublist w s"
  then obtain ps ss where "s = ps @ w @ ss" by (auto simp: sublist_def)
  then have "length ps \<le> length s \<and> prefix w (drop (length ps) s)" by simp
  then show "\<exists>j\<le>length s. prefix w (drop j s)" by blast
next
  assume "\<exists>j\<le>length s. prefix w (drop j s)"
  then obtain j where "prefix w (drop j s)" by blast
  then obtain ss where "drop j s = w @ ss" by (auto simp: prefix_def)
  then have "s = take j s @ w @ ss" by (metis append_take_drop_id)
  then show "sublist w s" unfolding sublist_def by blast
qed

text \<open>A pattern that starts with a literal and whose rest never fails is found exactly
  where the literal occurs.\<close>

lemma search_literal_like:
  assumes "\<And>p t. (rmatch r p t \<noteq> []) = prefix w t"
  shows "(search r s \<noteq> None) = sublist w s"
  using assms by (simp add: search_None_iff rmatch_at_def sublist_iff_prefix_drop)

lemma search_Lit: "(search (Lit w) s \<noteq> None) = sublist w s"
  by (rule search_literal_like) simp

lemma search_Lit_Opt: "(search (Seq (Lit w) (Opt r)) s \<noteq> None) = sublist w s"
  by (rule search_literal_like) simp

lemma any_match_comparison:
  "any_match comparison_patterns s =
     list_ex (\<lambda>w. sublist w s)
       [''better deal'', ''compare'', ''cheaper'', ''best price'', ''lowest price'',
        ''price difference'', ''price comparison'']"
  unfolding any_match_def comparison_patterns_def
  by (simp only: list_ex_Cons_iff list_ex_Nil_iff search_Lit search_Lit_Opt)

lemma any_match_return:
  "any_match return_patterns s =
     list_ex (\<lambda>w. sublist w s)
       [''return policy'', ''can i return'', ''return'', ''refund'', ''exchange'']"
  unfolding any_match_def return_patterns_def
  by (simp only: list_ex_Cons_iff list_ex_Nil_iff search_Lit search_Lit_Opt)

lemma not_digit_point [simp]: "\<not> is_digit CHR ''.''"
  by (simp add: is_digit_def)

lemma py_float_digits:
  assumes "ds \<noteq> []" and "list_all is_digit ds"
  shows "py_float ds = Some (of_nat (nat_of_digits ds))"
proof -
  from assms(2) have tw: "takeWhile is_digit ds = ds" and dw: "dropWhile is_digit ds = []"
    by (simp_all add: list_all_iff)
  show ?thesis unfolding py_float_def tw dw using assms(1) by simp
qed

lemma py_float_point:
  assumes "ds \<noteq> []" and "list_all is_digit ds" and "list_all is_digit fd"
  shows "py_float (ds @ CHR ''.'' # fd) =
           Some (of_nat (nat_of_digits ds) + of_nat (nat_of_digits fd) / 10 ^ length fd)"
proof -
  from assms(2) have tw: "takeWhile is_digit (ds @ CHR ''.'' # fd) = ds"
    and dw: "dropWhile is_digit (ds @ CHR ''.'' # fd) = CHR ''.'' # fd"
    by (simp_all add: list_all_iff takeWhile_append2 dropWhile_append2)
  show ?thesis unfolding py_float_def tw dw using assms(1,3) by simp
qed

lemma set_rmatch_Grp:
  "(n, c) \<in> set (rmatch (Grp r) p s) \<longleftrightarrow> (c = Some (take n s) \<and> (\<exists>c'. (n, c') \<in> set (rmatch r p s)))"
  by (auto simp add: image_iff split: prod.splits)

lemma amatch_Digit_all: "list_all (amatch Digit) ds = list_all is_digit ds"
  by (simp add: list_all_iff)

text \<open>What \<open>(\d+\.?\d*)\<close> captures is a text that \<open>float\<close> accepts.\<close>

lemma price_num_capture:
  assumes "(n, c) \<in> set (rmatch price_num p s)"
  shows "\<exists>g. c = Some g \<and> py_float g \<noteq> None"
proof -
  from assms obtain c' where c: "c = Some (take n s)"
    and inner: "(n, c') \<in> set (rmatch (Seq (Plus Digit) (Seq (Opt (Lit ''.'')) (Star Digit))) p s)"
    unfolding price_num_def seqs.simps set_rmatch_Grp by blast
  from inner obtain n1 c1 m cm where
    n1: "(n1, c1) \<in> set (rmatch (Plus Digit) p s)"
    and rest: "(m, cm) \<in> set (rmatch (Seq (Opt (Lit ''.'')) (Star Digit)) (prev_after p s n1) (drop n1 s))"
    and n: "n = n1 + m"
    unfolding set_rmatch_Seq by blast
  from rest obtain n2 c2 n3 c3 where
    n2: "(n2, c2) \<in> set (rmatch (Opt (Lit ''.'')) (prev_after p s n1) (drop n1 s))"
    and n3: "(n3, c3) \<in> set (rmatch (Star Digit)
               (prev_after (prev_after p s n1) (drop n1 s) n2) (drop n2 (drop n1 s)))"
    and m: "m = n2 + n3"
    unfolding set_rmatch_Seq by blast
  from n1 have n1_range: "1 \<le> n1" "n1 \<le> run Digit s" unfolding set_rmatch_Plus by simp_all
  then have ds: "list_all is_digit (take n1 s)"
    using take_run_all [of n1 Digit s] by (simp add: amatch_Digit_all)
  from n1_range run_le_length [of Digit s] have ds_ne: "take n1 s \<noteq> []" by auto
  from n3 have "n3 \<le> run Digit (drop (n1 + n2) s)"
    unfolding set_rmatch_Star by (simp add: add.commute)
  then have fd: "list_all is_digit (take n3 (drop (n1 + n2) s))"
    using take_run_all [of n3 Digit "drop (n1 + n2) s"] by (simp add: amatch_Digit_all)
  have split: "take n s = take n1 s @ take n2 (drop n1 s) @ take n3 (drop (n1 + n2) s)"
    unfolding n m by (simp add: take_add add.commute)
  from n2 consider (point) "n2 = 1" "prefix ''.'' (drop n1 s)" | (none) "n2 = 0"
    by (auto split: if_splits)
  then have "py_float (take n s) \<noteq> None"
  proof cases
    case point
    then have "take n2 (drop n1 s) = ''.''"
      by (auto simp add: prefix_def)
    with split have "take n s = take n1 s @ CHR ''.'' # take n3 (drop (n1 + n2) s)" by simp
    with py_float_point [OF ds_ne ds fd] show ?thesis by simp
  next
    case none
    with split have eq: "take n s = take n1 s @ take n3 (drop (n1 + n2) s)" by simp
    from ds fd have "list_all is_digit (take n1 s @ take n3 (drop (n1 + n2) s))" by simp
    moreover from ds_ne have "take n1 s @ take n3 (drop (n1 + n2) s) \<noteq> []" by simp
    ultimately show ?thesis using py_float_digits eq by simp
  qed
  with c show ?thesis by simp
qed

lemma set_rmatch_Lit: "(n, c) \<in> set (rmatch (Lit w) p s) \<longleftrightarrow> prefix w s \<and> n = length w \<and> c = None"
  by auto

lemma price_pattern_capture:
  assumes "r \<in> set price_patterns" and "(n, c) \<in> set (rmatch r p s)"
  shows "\<exists>g. c = Some g \<and> py_float g \<noteq> None"
proof -
  have front: "\<exists>g. c = Some g \<and> py_float g \<noteq> None"
    if "(n, c) \<in> set (rmatch (seqs (Lit w) [Star Space, Lit ''$'', price_num]) p s)" for w
  proof -
    from that obtain na ca nb cb nc cc nd cd p' s' where
      "(nd, cd) \<in> set (rmatch price_num p' s')"
      and "(na, ca) \<in> set (rmatch (Lit w) p s)"
      and "(nb, cb) \<in> set (rmatch (Star Space) (prev_after p s na) (drop na s))"
      and "(nc, cc) \<in> set (rmatch (Lit ''$'') (prev_after (prev_after p s na) (drop na s) nb)
                               (drop nb (drop na s)))"
      and "c = cap_merge ca (cap_merge cb (cap_merge cc cd))"
      unfolding seqs.simps set_rmatch_Seq by blast
    then show ?thesis
      using price_num_capture [of nd cd p' s'] by (auto simp add: set_rmatch_Star set_rmatch_Lit)
  qed
  have behind: "\<exists>g. c = Some g \<and> py_float g \<noteq> None"
    if "(n, c) \<in> set (rmatch (Seq (Lit ''$'') (Seq price_num tail)) p s)"
      and "\<And>n' c' p' s'. (n', c') \<in> set (rmatch tail p' s') \<Longrightarrow> c' = None" for tail
  proof -
    from that(1) obtain na ca nb cb nc cc p' s' p'' s'' where
      "(nb, cb) \<in> set (rmatch price_num p' s')"
      and "(na, ca) \<in> set (rmatch (Lit ''$'') p s)"
      and "(nc, cc) \<in> set (rmatch tail p'' s'')"
      and "c = cap_merge ca (cap_merge cb cc)"
      unfolding set_rmatch_Seq by blast
    then show ?thesis
      using price_num_capture [of nb cb p' s'] that(2) [of nc cc p'' s'']
      by (auto simp add: set_rmatch_Lit)
  qed
  have t1: "c' = None" if "(n', c') \<in> set (rmatch (Seq (Star Space) (Lit ''or less'')) p' s')"
    for n' c' p' s'
    using that unfolding set_rmatch_Seq by (auto simp add: set_rmatch_Star set_rmatch_Lit)
  have t2: "c' = None" if "(n', c') \<in> set (rmatch (Star Space) p' s')" for n' c' p' s'
    using that unfolding set_rmatch_Star by simp
  from assms(1) consider
      "r = seqs (Lit ''under'') [Star Space, Lit ''$'', price_num]"
    | "r = seqs (Lit ''less than'') [Star Space, Lit ''$'', price_num]"
    | "r = seqs (Lit ''cheaper than'') [Star Space, Lit ''$'', price_num]"
    | "r = Seq (Lit ''$'') (Seq price_num (Seq (Star Space) (Lit ''or less'')))"
    | "r = Seq (Lit ''$'') (Seq price_num (Star Space))"
    by (auto simp add: price_patterns_def)
  then show ?thesis
  proof cases
    case 1 with assms(2) front show ?thesis by blast
  next
    case 2 with assms(2) front show ?thesis by blast
  next
    case 3 with assms(2) front show ?thesis by blast
  next
    case 4
    with assms(2) have "(n, c) \<in> set (rmatch (Seq (Lit ''$'') (Seq price_num
        (Seq (Star Space) (Lit ''or less'')))) p s)" by simp
    then show ?thesis by (rule behind) (rule t1)
  next
    case 5
    with assms(2) have "(n, c) \<in> set (rmatch (Seq (Lit ''$'') (Seq price_num (Star Space))) p s)"
      by simp
    then show ?thesis by (rule behind) (rule t2)
  qed
qed

lemma first_match_SomeD:
  "first_match rs s = Some m \<Longrightarrow> \<exists>r\<in>set rs. search r s = Some m"
  by (induction rs) (auto split: option.splits)

lemma search_Some_in_set:
  assumes "search r s = Some m"
  shows "\<exists>j n c. m = Match j n c \<and> (n, c) \<in> set (rmatch_at r s j)"
proof -
  from search_SomeD [OF assms] obtain j n c rest where
    "m = Match j n c" "rmatch_at r s j = (n, c) # rest" by blast
  then show ?thesis by auto
qed

lemma extract_price_total: "\<exists>x. extract_price query = Inr x"
proof (cases "first_match price_patterns query")
  case None
  then show ?thesis by (simp add: extract_price_def)
next
  case (Some m)
  from first_match_SomeD [OF Some] obtain r where r: "r \<in> set price_patterns"
    and "search r query = Some m" by blast
  from search_Some_in_set [OF this(2)] obtain j n c where
    m: "m = Match j n c" and "(n, c) \<in> set (rmatch_at r query j)" by blast
  with price_pattern_capture [OF r, of n c] obtain g where "c = Some g" "py_float g \<noteq> None"
    unfolding rmatch_at_def by blast
  with Some m show ?thesis by (auto simp add: extract_price_def)
qed

lemma parse_query_total: "\<exists>i. parse_query today query = Inr i"
  using extract_price_total [of query] by (auto simp add: parse_query_def)


lemma parse_query_query_type:
  "parse_query today query = Inr i \<Longrightarrow> query_type i = classify query"
  by (auto simp add: parse_query_def split: sum.splits)

text \<open>
  C1, as the code has it. The claim puts the return bucket first; \<open>parse_query\<close> tests the
  comparison bucket first. For every query \<open>parse_query\<close> returns a record whose query type
  is \<open>comparison\<close> if a pattern of the comparison bucket matches the lower-cased query,
  otherwise \<open>return\<close> if a pattern of the return bucket matches, otherwise \<open>search\<close>; a
  query that matches both buckets is a comparison. A bucket matches exactly when one of
  its keywords occurs in the lower-cased query.
\<close>

theorem classify_comparison_first:
  "\<exists>i. parse_query today query = Inr i
     \<and> query_type i =
         (if any_match comparison_patterns (lower query) then ''comparison''
          else if any_match return_patterns (lower query) then ''return''
          else ''search'')
     \<and> (any_match comparison_patterns (lower query) \<and> any_match return_patterns (lower query)
          \<longrightarrow> query_type i = ''comparison'')
     \<and> any_match comparison_patterns (lower query) =
         list_ex (\<lambda>w. sublist w (lower query))
           [''better deal'', ''compare'', ''cheaper'', ''best price'', ''lowest price'',
            ''price difference'', ''price comparison'']
     \<and> any_match return_patterns (lower query) =
         list_ex (\<lambda>w. sublist w (lower query))
           [''return policy'', ''can i return'', ''return'', ''refund'', ''exchange'']"
proof -
  from parse_query_total obtain i where i: "parse_query today query = Inr i" by blast
  from parse_query_query_type [OF i] have "query_type i = classify query" .
  with i show ?thesis
    unfolding classify_def
    using any_match_comparison [of "lower query"] any_match_return [of "lower query"]
    by (intro exI [of _ i]) simp
qed

theorem classify_comparison_first_witness:
  "any_match comparison_patterns (lower ''Compare returns'')
   \<and> any_match return_patterns (lower ''Compare returns'')
   \<and> (\<exists>i. parse_query (datetime_ymd 2026 11 3) ''Compare returns'' = Inr i
          \<and> query_type i = ''comparison'')"
proof -
  have a: "any_match comparison_patterns (lower ''Compare returns'')" by code_simp
  have b: "any_match return_patterns (lower ''Compare returns'')" by code_simp
  from classify_comparison_first [of "datetime_ymd 2026 11 3" "''Compare returns''"] a b
  show ?thesis by auto
qed

text \<open>
  C1 as stated fails: \<open>compare returns\<close> matches the return bucket and is classified as a
  comparison.
\<close>

theorem return_bucket_not_first:
  "any_match return_patterns (lower ''compare returns'')
   \<and> map_sum id query_type (parse_query (datetime_ymd 2026 11 3) ''compare returns'')
       = Inr ''comparison''
   \<and> map_sum id query_type (parse_query (datetime_ymd 2026 11 3) ''compare returns'')
       \<noteq> Inr ''return''"
  by code_simp

section \<open>Properties of the dispatcher\<close>

text \<open>
  C2. The claim is that \<open>handle_query\<close> answers every query with a string. A comparison
  query that names a product of the catalog and gives no price reaches the comparison of a
  price with \<open>None\<close>, which raises \<open>TypeError\<close>.
\<close>

theorem comparison_without_ceiling_raises:
  "handle_query e (''compare '' @ [CHR 0x27] @ ''denim jacket'' @ [CHR 0x27]) = Inl TypeError"
  by code_simp

section \<open>Properties of the colour extractor\<close>









section \<open>Properties of the product-name extractor: the quote tier\<close>

lemma run_ge_iff: "k \<le> run a xs \<longleftrightarrow> k \<le> length xs \<and> list_all (amatch a) (take k xs)"
proof
  assume k: "k \<le> run a xs"
  with run_le_length [of a xs] take_run_all [OF k]
  show "k \<le> length xs \<and> list_all (amatch a) (take k xs)" by simp
next
  assume a: "k \<le> length xs \<and> list_all (amatch a) (take k xs)"
  then have "\<forall>x\<in>set (take k xs). amatch a x" by (simp add: list_all_iff)
  then have "takeWhile (amatch a) (take k xs @ drop k xs) = take k xs @ takeWhile (amatch a) (drop k xs)"
    by (simp add: takeWhile_append2 del: append_take_drop_id)
  then have "run a xs = length (take k xs) + length (takeWhile (amatch a) (drop k xs))"
    unfolding run_def by (simp only: append_take_drop_id length_append)
  with a show "k \<le> run a xs" by simp
qed

lemma set_rmatch_Atom:
  "(n, c) \<in> set (rmatch (Atom a) p s) \<longleftrightarrow> s \<noteq> [] \<and> amatch a (hd s) \<and> n = 1 \<and> c = None"
  by (cases s) auto

text \<open>The ways in which the quote pattern matches at the start of a text.\<close>

lemma set_rmatch_quote:
  "(n, c) \<in> set (rmatch quote_pattern p t) \<longleftrightarrow>
     (\<exists>k. t \<noteq> [] \<and> hd t \<in> set quote_chars \<and> k \<le> run Dot (tl t) \<and> k < length (tl t)
          \<and> tl t ! k \<in> set quote_chars \<and> n = k + 2 \<and> c = Some (take k (tl t)))"
  (is "?L \<longleftrightarrow> ?R")
proof
  assume ?L
  then obtain n1 c1 n2 c2 n3 c3 where
    a: "(n1, c1) \<in> set (rmatch (Atom (OneOf quote_chars)) p t)"
    and b: "(n2, c2) \<in> set (rmatch (Grp (LazyStar Dot)) (prev_after p t n1) (drop n1 t))"
    and c: "(n3, c3) \<in> set (rmatch (Atom (OneOf quote_chars))
              (prev_after (prev_after p t n1) (drop n1 t) n2) (drop n2 (drop n1 t)))"
    and n: "n = n1 + (n2 + n3)" and cap: "c = cap_merge c1 (cap_merge c2 c3)"
    unfolding quote_pattern_def seqs.simps set_rmatch_Seq by blast
  from a have a': "t \<noteq> []" "hd t \<in> set quote_chars" "n1 = 1" "c1 = None"
    unfolding set_rmatch_Atom by simp_all
  then have d1: "drop n1 t = tl t" by (simp add: drop_Suc)
  from b have b': "n2 \<le> run Dot (tl t)" "c2 = Some (take n2 (tl t))"
    unfolding set_rmatch_Grp set_rmatch_LazyStar d1 by auto
  from c have c': "drop n2 (tl t) \<noteq> []" "hd (drop n2 (tl t)) \<in> set quote_chars" "n3 = 1" "c3 = None"
    unfolding set_rmatch_Atom d1 by simp_all
  from c'(1) have lt: "n2 < length (tl t)" by simp
  with c'(2) have "tl t ! n2 \<in> set quote_chars" by (simp add: hd_drop_conv_nth)
  with a' b' c' lt n cap show ?R by (intro exI [of _ n2]) simp
next
  assume ?R
  then obtain k where t: "t \<noteq> []" and h: "hd t \<in> set quote_chars"
    and k: "k \<le> run Dot (tl t)" and lt: "k < length (tl t)"
    and q: "tl t ! k \<in> set quote_chars" and n: "n = k + 2" and c: "c = Some (take k (tl t))"
    by blast
  from t h have a: "(1, None) \<in> set (rmatch (Atom (OneOf quote_chars)) p t)"
    unfolding set_rmatch_Atom by simp
  from t have d1: "drop 1 t = tl t" by (simp add: drop_Suc)
  from k have b: "(k, Some (take k (tl t))) \<in>
      set (rmatch (Grp (LazyStar Dot)) (prev_after p t 1) (drop 1 t))"
    unfolding set_rmatch_Grp set_rmatch_LazyStar d1 by simp
  from lt q have c3: "(1, None) \<in> set (rmatch (Atom (OneOf quote_chars))
      (prev_after (prev_after p t 1) (drop 1 t) k) (drop k (drop 1 t)))"
    unfolding set_rmatch_Atom d1 by (simp add: hd_drop_conv_nth)
  show ?L
    unfolding quote_pattern_def seqs.simps set_rmatch_Seq
    using a b c3 n c
    by (intro exI [of _ 1] exI [of _ None] exI [of _ "k + 1"] exI [of _ "Some (take k (tl t))"]
          conjI exI [of _ k] exI [of _ 1])
       (simp_all)
qed

text \<open>A match of the quote pattern depends on the matched text only.\<close>

lemma quote_match_transfer:
  assumes "(n, c) \<in> set (rmatch quote_pattern p t)" and "prefix (take n t) t'"
  shows "rmatch quote_pattern p' t' \<noteq> []"
proof -
  from assms(1) obtain k where t: "t \<noteq> []" and h: "hd t \<in> set quote_chars"
    and k: "k \<le> run Dot (tl t)" and lt: "k < length (tl t)"
    and q: "tl t ! k \<in> set quote_chars" and n: "n = k + 2"
    unfolding set_rmatch_quote by blast
  from t obtain x xs where tx: "t = x # xs" by (cases t) auto
  from assms(2) obtain u where t': "t' = take n t @ u" by (auto simp add: prefix_def)
  with tx n have t'x: "t' = x # (take (k + 1) xs @ u)" by simp
  from lt tx have len: "k + 1 \<le> length xs" by simp
  then have tk: "take k (take (k + 1) xs @ u) = take k xs" by simp
  from k tx have "list_all (amatch Dot) (take k xs)" by (simp add: run_ge_iff)
  with tk len have k': "k \<le> run Dot (take (k + 1) xs @ u)"
    unfolding run_ge_iff by simp
  from len have nth: "(take (k + 1) xs @ u) ! k = xs ! k" by (simp add: nth_append)
  have "(k + 2, Some (take k (tl t'))) \<in> set (rmatch quote_pattern p' t')"
    unfolding set_rmatch_quote using h q tx k' nth len unfolding t'x
    by (intro exI [of _ k]) simp
  then show ?thesis by auto
qed

lemma find_from_first:
  assumes "j \<le> length s" and "prefix sub (drop j s)" and "\<forall>k<j. \<not> prefix sub (drop k s)"
  shows "find_from s sub i = i + int j"
  using assms
proof (induction s arbitrary: i j)
  case Nil
  then show ?case by simp
next
  case (Cons x xs)
  show ?case
  proof (cases j)
    case 0
    with Cons.prems show ?thesis by simp
  next
    case (Suc j')
    with Cons.prems have "\<not> prefix sub (x # xs)" by (metis drop0 zero_less_Suc)
    moreover have "find_from xs sub (i + 1) = (i + 1) + int j'"
    proof (rule Cons.IH)
      from Suc Cons.prems show "j' \<le> length xs" by simp
      from Suc Cons.prems show "prefix sub (drop j' xs)" by simp
      show "\<forall>k<j'. \<not> prefix sub (drop k xs)"
      proof (intro allI impI)
        fix k assume "k < j'"
        with Suc Cons.prems(3) have "\<not> prefix sub (drop (Suc k) (x # xs))"
          by (metis Suc_mono)
        then show "\<not> prefix sub (drop k xs)" by simp
      qed
    qed
    ultimately show ?thesis using Suc by simp
  qed
qed

text \<open>
  The slice \<open>query[:query.find(quote_match.group(0))]\<close> is the text before the match: the
  matched text cannot occur earlier, or the pattern would have matched there.
\<close>

lemma text_before_quote_match:
  assumes "search quote_pattern query = Some m"
  shows "slice_to query (find query (group0 query m)) = take (m_start m) query"
proof -
  from search_SomeD [OF assms] obtain j n c rest where
    j: "j \<le> length query" and m: "m = Match j n c"
    and hd: "rmatch_at quote_pattern query j = (n, c) # rest"
    and before: "\<forall>k<j. rmatch_at quote_pattern query k = []"
    by blast
  from hd have mem: "(n, c) \<in> set (rmatch quote_pattern (prev_after None query j) (drop j query))"
    by (simp add: rmatch_at_def)
  have g0: "group0 query m = take n (drop j query)" by (simp add: m group0_def)
  have "\<not> prefix (take n (drop j query)) (drop k query)" if "k < j" for k
  proof
    assume "prefix (take n (drop j query)) (drop k query)"
    from quote_match_transfer [OF mem this, of "prev_after None query k"] before that
    show False by (simp add: rmatch_at_def)
  qed
  then have "find_from query (take n (drop j query)) 0 = 0 + int j"
    by (intro find_from_first [OF j]) (simp_all add: take_is_prefix)
  then show ?thesis unfolding find_def g0 slice_to_def by (simp add: m)
qed

lemma quote_tier_eq:
  "quote_tier query =
     (case search quote_pattern query of
        None \<Rightarrow> None
      | Some m \<Rightarrow>
          if sublist ''code'' (lower (take (m_start m) query)) then None else Some (group1 m))"
  by (auto simp add: quote_tier_def text_before_quote_match split: option.splits)

lemma lower_append: "lower (xs @ ys) = lower xs @ lower ys"
  by (simp add: lower_def)

lemma lower_code: "lower ''code'' = ''code''"
  by code_simp

lemma take_append_long: "length xs \<le> j \<Longrightarrow> take j (xs @ ys) = xs @ take (j - length xs) ys"
  by simp

text \<open>
  In particular the quote tier returns nothing when the word \<open>code\<close> stands before the
  first quotation mark of the query.
\<close>

lemma quote_after_word_code:
  assumes "query = pre @ ''code'' @ rest"
    and "\<forall>ch\<in>set (pre @ ''code''). ch \<notin> set quote_chars"
  shows "quote_tier query = None"
proof (cases "search quote_pattern query")
  case None
  then show ?thesis by (simp add: quote_tier_eq)
next
  case (Some m)
  from search_SomeD [OF Some] obtain j n c zs where
    j: "j \<le> length query" and m: "m = Match j n c"
    and hd: "rmatch_at quote_pattern query j = (n, c) # zs"
    by blast
  from hd have "(n, c) \<in> set (rmatch quote_pattern (prev_after None query j) (drop j query))"
    by (simp add: rmatch_at_def)
  then have ne: "drop j query \<noteq> []" and q: "hd (drop j query) \<in> set quote_chars"
    unfolding set_rmatch_quote by blast+
  from ne have jl: "j < length query" by simp
  with q have qj: "query ! j \<in> set quote_chars" by (simp add: hd_drop_conv_nth)
  have "length (pre @ ''code'') \<le> j"
  proof (rule ccontr)
    assume "\<not> length (pre @ ''code'') \<le> j"
    then have lt: "j < length (pre @ ''code'')" by simp
    have "query = (pre @ ''code'') @ rest" unfolding assms(1) by simp
    with lt have "query ! j = (pre @ ''code'') ! j" by (simp only: nth_append if_True)
    moreover from lt have "(pre @ ''code'') ! j \<in> set (pre @ ''code'')" by (rule nth_mem)
    ultimately show False using qj assms(2) by auto
  qed
  then have "take j ((pre @ ''code'') @ rest) =
      (pre @ ''code'') @ take (j - length (pre @ ''code'')) rest"
    by (rule take_append_long)
  then obtain u where "take j query = pre @ ''code'' @ u"
    unfolding assms(1) by simp
  then have "lower (take j query) = lower pre @ ''code'' @ lower u"
    by (simp only: lower_append lower_code)
  moreover have "sublist ''code'' (lower pre @ ''code'' @ lower u)"
    by (rule sublist_appendI)
  ultimately have "sublist ''code'' (lower (take (m_start m) query))"
    unfolding m by (simp only: re_match.sel)
  with Some show ?thesis by (simp add: quote_tier_eq)
qed

text \<open>
  C8. When the text before the first quoted span (the leftmost match of the quote pattern)
  contains \<open>code\<close> in any case, as it does when the word \<open>code\<close> stands right before the
  span, the quote tier returns nothing: the product name is then whatever the phrase
  templates and, after them, the known product nouns give.
\<close>

theorem quote_after_code_not_a_product:
  assumes "search quote_pattern query = Some m"
    and "sublist ''code'' (lower (take (m_start m) query))"
  shows "quote_tier query = None
         \<and> extract_product_name query =
             (case indicator_loop product_indicators query of
                Some name \<Rightarrow> Some name
              | None \<Rightarrow> type_loop product_types query)"
  using assms by (simp add: quote_tier_eq extract_product_name_def)

theorem quote_after_code_not_a_product_witness:
  "search quote_pattern (''a dress, Code '' @ [CHR 0x27] @ ''SAVE10'' @ [CHR 0x27])
     = Some (Match 14 8 (Some ''SAVE10''))
   \<and> quote_tier (''a dress, Code '' @ [CHR 0x27] @ ''SAVE10'' @ [CHR 0x27]) = None
   \<and> extract_product_name (''a dress, Code '' @ [CHR 0x27] @ ''SAVE10'' @ [CHR 0x27])
       = Some ''a dress''"
proof -
  have a: "search quote_pattern (''a dress, Code '' @ [CHR 0x27] @ ''SAVE10'' @ [CHR 0x27])
             = Some (Match 14 8 (Some ''SAVE10''))"
    by code_simp
  have b: "sublist ''code'' (lower (take (m_start (Match 14 8 (Some ''SAVE10'')))
             (''a dress, Code '' @ [CHR 0x27] @ ''SAVE10'' @ [CHR 0x27])))"
    by code_simp
  have c: "(case indicator_loop product_indicators
               (''a dress, Code '' @ [CHR 0x27] @ ''SAVE10'' @ [CHR 0x27]) of
              Some name \<Rightarrow> Some name
            | None \<Rightarrow> type_loop product_types
                (''a dress, Code '' @ [CHR 0x27] @ ''SAVE10'' @ [CHR 0x27])) = Some ''a dress''"
    by code_simp
  from quote_after_code_not_a_product [OF a b] a c show ?thesis by simp
qed

section \<open>Properties of the delivery-date extractor: weekday deadlines\<close>









lemma set_rmatch_Alt:
  "(n, c) \<in> set (rmatch (Alt r1 r2) p s) \<longleftrightarrow>
     (n, c) \<in> set (rmatch r1 p s) \<or> (n, c) \<in> set (rmatch r2 p s)"
  by simp









lemma date_patterns_nth:
  "date_patterns ! 0 = seqs (Lit ''by'') [Star Space, weekday_group]"
  "date_patterns ! 1 = seqs (Lit ''before'') [Star Space, weekday_group]"
  "take 2 date_patterns = [seqs (Lit ''by'') [Star Space, weekday_group],
                           seqs (Lit ''before'') [Star Space, weekday_group]]"
  by (simp_all add: date_patterns_def)






lemma date_loop_skip:
  "search pattern (lower query) = None \<Longrightarrow>
     date_loop (pattern # patterns) today query = date_loop patterns today query"
  by simp





section \<open>Properties of the delivery-date extractor: explicit dates\<close>

lemma run_nth: "k < run a s \<Longrightarrow> amatch a (s ! k)"
proof -
  assume k: "k < run a s"
  then have "takeWhile (amatch a) s ! k \<in> set (takeWhile (amatch a) s)"
    unfolding run_def by (rule nth_mem)
  then have "amatch a (takeWhile (amatch a) s ! k)" by (rule set_takeWhileD [THEN conjunct2])
  with k show ?thesis unfolding run_def by (simp add: takeWhile_nth)
qed

lemma last_take: "0 < n \<Longrightarrow> n \<le> length s \<Longrightarrow> last (take n s) = s ! (n - 1)"
proof -
  assume n: "0 < n" "n \<le> length s"
  then have "take n s \<noteq> []" by auto
  then have "last (take n s) = take n s ! (length (take n s) - 1)" by (rule last_conv_nth)
  with n show ?thesis by (simp add: min_def)
qed

text \<open>What \<open>(\w+\s*\d+)\<close> captures ends with a digit.\<close>

lemma month_day_group_capture:
  assumes "(n, c) \<in> set (rmatch month_day_group p s)"
  shows "\<exists>g. c = Some g \<and> g \<noteq> [] \<and> is_digit (last g)"
proof -
  from assms obtain c' where c: "c = Some (take n s)"
    and inner: "(n, c') \<in> set (rmatch (Seq (Plus Word) (Seq (Star Space) (Plus Digit))) p s)"
    unfolding month_day_group_def seqs.simps set_rmatch_Grp by blast
  from rmatch_le_length [OF inner] have n_le: "n \<le> length s" .
  from inner obtain n1 c1 n2 c2 n3 c3 where
    n3: "(n3, c3) \<in> set (rmatch (Plus Digit)
           (prev_after (prev_after p s n1) (drop n1 s) n2) (drop n2 (drop n1 s)))"
    and n: "n = n1 + (n2 + n3)"
    unfolding set_rmatch_Seq by blast
  from n3 have r: "1 \<le> n3" "n3 \<le> run Digit (drop (n1 + n2) s)"
    unfolding set_rmatch_Plus by (simp_all add: add.commute)
  then have "amatch Digit (drop (n1 + n2) s ! (n3 - 1))" by (intro run_nth) simp
  moreover from r n n_le have "drop (n1 + n2) s ! (n3 - 1) = s ! (n - 1)"
    by (simp add: add.assoc)
  ultimately have "is_digit (s ! (n - 1))" by simp
  moreover from r n n_le have "last (take n s) = s ! (n - 1)" by (intro last_take) simp_all
  moreover from r n n_le have "take n s \<noteq> []" by auto
  ultimately show ?thesis using c by simp
qed

lemma weekday_names_end: "\<forall>name\<in>set weekday_names. \<not> is_digit (last name)"
  unfolding weekday_names_def is_digit_def by simp

lemma days_map_dom: "days_map g = Some t \<Longrightarrow> g \<in> set weekday_names"
  unfolding days_map_def weekday_names_def by (simp split: if_splits)

lemma days_map_digit_end: "g \<noteq> [] \<Longrightarrow> is_digit (last g) \<Longrightarrow> days_map g = None"
  using days_map_dom weekday_names_end by (cases "days_map g") blast+

lemma set_rmatch_Opt:
  "(n, c) \<in> set (rmatch (Opt r) p s) \<longleftrightarrow> (n, c) \<in> set (rmatch r p s) \<or> (n = 0 \<and> c = None)"
  by auto

lemma cap_merge_None [simp]: "cap_merge None c = c"
  by (cases c) simp_all

lemma seq_capture_right:
  assumes "(n, c) \<in> set (rmatch (Seq r1 r2) p s)"
    and "\<And>n c p s. (n, c) \<in> set (rmatch r1 p s) \<Longrightarrow> c = None"
    and "\<And>n c p s. (n, c) \<in> set (rmatch r2 p s) \<Longrightarrow> Q c"
  shows "Q c"
proof -
  from assms(1) obtain n1 c1 n2 c2 where
    a: "(n1, c1) \<in> set (rmatch r1 p s)"
    and b: "(n2, c2) \<in> set (rmatch r2 (prev_after p s n1) (drop n1 s))"
    and c: "c = cap_merge c1 c2"
    unfolding set_rmatch_Seq by blast
  from assms(2) [OF a] c have "c = c2" by simp
  with assms(3) [OF b] show ?thesis by simp
qed

lemma no_capture_Lit: "(n, c) \<in> set (rmatch (Lit w) p s) \<Longrightarrow> c = None"
  unfolding set_rmatch_Lit by simp

lemma no_capture_Star: "(n, c) \<in> set (rmatch (Star a) p s) \<Longrightarrow> c = None"
  unfolding set_rmatch_Star by simp

lemma no_capture_Plus: "(n, c) \<in> set (rmatch (Plus a) p s) \<Longrightarrow> c = None"
  unfolding set_rmatch_Plus by simp

lemma no_capture_Opt_Alt_Lit:
  "(n, c) \<in> set (rmatch (Opt (Alt (Lit v) (Lit w))) p s) \<Longrightarrow> c = None"
  unfolding set_rmatch_Opt set_rmatch_Alt set_rmatch_Lit by blast

text \<open>The two explicit-date patterns capture what the month-day group captures.\<close>

lemma by_month_day_capture:
  assumes "(n, c) \<in> set (rmatch (Seq (Star Space) (Seq (Lit ''by'') (Seq (Star Space) month_day_group))) p s)"
  shows "\<exists>g. c = Some g \<and> g \<noteq> [] \<and> is_digit (last g)"
  using assms
  by (elim seq_capture_right no_capture_Star no_capture_Lit month_day_group_capture)

lemma deliver_pattern_capture:
  assumes "(n, c) \<in> set (rmatch (date_patterns ! 2) p s)"
  shows "\<exists>g. c = Some g \<and> g \<noteq> [] \<and> is_digit (last g)"
proof -
  have dp: "date_patterns ! 2 =
      Seq (Lit ''deliver'') (Seq (Opt (Alt (Lit ''ed'') (Lit ''y''))) (Seq (Star Space)
        (Seq (Lit ''by'') (Seq (Star Space) month_day_group))))"
    by (simp add: date_patterns_def)
  from assms show ?thesis unfolding dp
    by (elim seq_capture_right no_capture_Lit no_capture_Opt_Alt_Lit by_month_day_capture)
qed

lemma arrive_pattern_capture:
  assumes "(n, c) \<in> set (rmatch (date_patterns ! 3) p s)"
  shows "\<exists>g. c = Some g \<and> g \<noteq> [] \<and> is_digit (last g)"
proof -
  have dp: "date_patterns ! 3 =
      Seq (Lit ''arrive'') (Seq (Star Space) (Seq (Lit ''by'') (Seq (Star Space) month_day_group)))"
    by (simp add: date_patterns_def)
  from assms show ?thesis unfolding dp
    by (elim seq_capture_right no_capture_Lit by_month_day_capture)
qed

lemma explicit_capture_no_weekday:
  assumes "search (date_patterns ! k) s = Some m" and "k = 2 \<or> k = 3"
  shows "days_map (group1 m) = None"
proof -
  from search_Some_in_set [OF assms(1)] obtain j n c where
    m: "m = Match j n c"
    and mem: "(n, c) \<in> set (rmatch (date_patterns ! k) (prev_after None s j) (drop j s))"
    unfolding rmatch_at_def by blast
  from assms(2) mem deliver_pattern_capture arrive_pattern_capture
  obtain g where "c = Some g" "g \<noteq> []" "is_digit (last g)" by blast
  with m days_map_digit_end [of g] show ?thesis by simp
qed

lemma date_loop_explicit:
  assumes "k = 2 \<or> k = 3"
  shows "date_loop (date_patterns ! k # patterns) today query =
           (case explicit_date (date_patterns ! k) query of
              Some (mo, d) \<Rightarrow> Some (datetime_ymd 1900 mo (int d))
            | None \<Rightarrow> date_loop patterns today query)"
proof (cases "search (date_patterns ! k) (lower query)")
  case None
  then show ?thesis by (simp add: explicit_date_def)
next
  case (Some m)
  from explicit_capture_no_weekday [OF Some assms] Some show ?thesis
    by (simp add: explicit_date_def strptime_B_d_def split: option.splits)
qed

text \<open>A date of the year 1900 lies in the year 1900.\<close>

lemma year_1900_days:
  "\<forall>mo\<in>set [1, 2, 3, 4, 5, 6, 7, 8, 9, 10, 11, 12].
     0 \<le> days_before_month 1900 mo \<and> days_before_month 1900 mo + days_in_month 1900 mo \<le> 365"
  unfolding days_before_month_def days_in_month_def is_leap_def
  by (simp add: upt_rec)

lemma in_year_1900:
  assumes "1 \<le> mo" and "mo \<le> 12" and "1 \<le> d" and "d \<le> days_in_month 1900 mo"
  shows "in_year 1900 (datetime_ymd 1900 mo d)"
proof -
  from assms(1,2) have "mo \<in> set [1, 2, 3, 4, 5, 6, 7, 8, 9, 10, 11, 12]"
    by simp arith
  with year_1900_days have b: "0 \<le> days_before_month 1900 mo"
    "days_before_month 1900 mo + days_in_month 1900 mo \<le> 365" by blast+
  have y: "days_before_year 1901 = days_before_year 1900 + 365"
    by (simp add: days_before_year_def)
  have m1: "days_before_month y (Suc 0) = 0" for y by (simp add: days_before_month_def)
  from b assms(3,4) y show ?thesis
    unfolding in_year_def datetime_ymd_def ymd2ord_def by (simp add: m1)
qed

lemma index_of_range: "index_of x xs = Some i \<Longrightarrow> i < length xs"
  by (induction xs arbitrary: i) (auto split: if_splits option.splits)

lemma parse_month_day_range:
  assumes "parse_month_day text = Some (mo, d)"
  shows "1 \<le> mo \<and> mo \<le> 12 \<and> 1 \<le> d \<and> int d \<le> days_in_month 1900 mo"
proof -
  from assms obtain i where i: "index_of (lower (takeWhile (\<lambda>c. \<not> is_space c) text)) month_names = Some i"
    and mo: "mo = Suc i"
    and d: "parse_day (dropWhile is_space (dropWhile (\<lambda>c. \<not> is_space c) text)) = Some d"
    and dim: "int d \<le> days_in_month 1900 (Suc i)"
    unfolding parse_month_day_def Let_def by (auto split: option.splits if_splits)
  from index_of_range [OF i] have "i < 12" by (simp add: month_names_def)
  moreover from d have "1 \<le> d" unfolding parse_day_def by (simp split: if_splits)
  ultimately show ?thesis using mo dim by simp
qed

text \<open>
  What the code does with an explicit date. For a query in which no weekday phrase
  matches, the delivery date is the date in 1900 with the month and the day parsed from the
  text after \<open>deliver(ed|y) by\<close>, or else, when that pattern does not match or its text does
  not parse, from the text after \<open>arrive by\<close>; every date returned lies in the year 1900;
  and when neither pattern yields a text that parses, no date is returned.
\<close>

lemma explicit_date_year_1900:
  assumes "first_match (take 2 date_patterns) (lower query) = None"
  shows "parse_delivery_date today query =
           (case explicit_date (date_patterns ! 2) query of
              Some (mo, d) \<Rightarrow> Some (datetime_ymd 1900 mo (int d))
            | None \<Rightarrow>
                (case explicit_date (date_patterns ! 3) query of
                   Some (mo, d) \<Rightarrow> Some (datetime_ymd 1900 mo (int d))
                 | None \<Rightarrow> None))
         \<and> (\<forall>r. parse_delivery_date today query = Some r \<longrightarrow> in_year 1900 r)
         \<and> (explicit_date (date_patterns ! 2) query = None
              \<and> explicit_date (date_patterns ! 3) query = None
              \<longrightarrow> parse_delivery_date today query = None)"
proof -
  have dp: "date_patterns = date_patterns ! 0 # date_patterns ! 1 # date_patterns ! 2
                              # date_patterns ! 3 # []"
    by (simp add: date_patterns_def)
  from assms have none: "search (date_patterns ! 0) (lower query) = None"
    "search (date_patterns ! 1) (lower query) = None"
    unfolding date_patterns_nth by (simp_all split: option.splits)
  have s2: "date_loop (date_patterns ! 2 # ps) today query =
           (case explicit_date (date_patterns ! 2) query of
              Some (mo, d) \<Rightarrow> Some (datetime_ymd 1900 mo (int d))
            | None \<Rightarrow> date_loop ps today query)" for ps
    by (rule date_loop_explicit) simp
  have s3: "date_loop (date_patterns ! 3 # ps) today query =
           (case explicit_date (date_patterns ! 3) query of
              Some (mo, d) \<Rightarrow> Some (datetime_ymd 1900 mo (int d))
            | None \<Rightarrow> date_loop ps today query)" for ps
    by (rule date_loop_explicit) simp
  have nil: "date_loop [] today query = None" by simp
  have "parse_delivery_date today query =
          date_loop (date_patterns ! 2 # date_patterns ! 3 # []) today query"
    unfolding parse_delivery_date_def
    by (subst dp) (simp only: date_loop_skip [OF none(1)] date_loop_skip [OF none(2)])
  then have eq: "parse_delivery_date today query =
           (case explicit_date (date_patterns ! 2) query of
              Some (mo, d) \<Rightarrow> Some (datetime_ymd 1900 mo (int d))
            | None \<Rightarrow>
                (case explicit_date (date_patterns ! 3) query of
                   Some (mo, d) \<Rightarrow> Some (datetime_ymd 1900 mo (int d))
                 | None \<Rightarrow> None))"
    unfolding s2 s3 nil .
  have year: "in_year 1900 (datetime_ymd 1900 mo (int d))"
    if "explicit_date pattern query = Some (mo, d)" for pattern mo d
  proof -
    from that obtain m where "parse_month_day (group1 m) = Some (mo, d)"
      unfolding explicit_date_def by (auto split: option.splits)
    from parse_month_day_range [OF this] show ?thesis by (intro in_year_1900) simp_all
  qed
  have "in_year 1900 r" if "parse_delivery_date today query = Some r" for r
    using that year unfolding eq by (auto split: option.splits)
  with eq show ?thesis by (auto split: option.splits)
qed

lemma explicit_date_year_1900_example:
  "parse_delivery_date (datetime_ymd 2026 11 3) ''Delivered by March 5'' = Some (datetime_ymd 1900 3 5)
   \<and> in_year 1900 (datetime_ymd 1900 3 5)
   \<and> parse_delivery_date (datetime_ymd 2026 11 3) ''arrive by Foo 12'' = None"
proof -
  have a: "first_match (take 2 date_patterns) (lower ''Delivered by March 5'') = None"
    by code_simp
  have b: "explicit_date (date_patterns ! 2) ''Delivered by March 5'' = Some (3, 5)"
    by code_simp
  have c: "first_match (take 2 date_patterns) (lower ''arrive by Foo 12'') = None"
    by code_simp
  have d: "explicit_date (date_patterns ! 2) ''arrive by Foo 12'' = None"
    "explicit_date (date_patterns ! 3) ''arrive by Foo 12'' = None"
    by code_simp+
  from explicit_date_year_1900 [OF a, of "datetime_ymd 2026 11 3"] b
    explicit_date_year_1900 [OF c, of "datetime_ymd 2026 11 3"] d
  show ?thesis by simp
qed

text \<open>
  C3. The claim is that an explicit date such as \<open>delivered by March 5\<close> becomes the date
  with that month and day in the current year. \<open>strptime\<close> with the format \<open>%B %d\<close> takes the
  year 1900: on 3 November 2026 the query \<open>delivered by March 5\<close>, which has no weekday
  phrase, gets the date 5 March 1900, which does not lie in 2026.
\<close>

theorem explicit_date_not_in_current_year:
  "in_year 2026 (datetime_ymd 2026 11 3)
   \<and> first_match (take 2 date_patterns) (lower ''delivered by March 5'') = None
   \<and> parse_delivery_date (datetime_ymd 2026 11 3) ''delivered by March 5''
       = Some (datetime_ymd 1900 3 5)
   \<and> \<not> in_year 2026 (datetime_ymd 1900 3 5)"
  by code_simp

section \<open>Properties of the price extractor\<close>















end
